theory Spec2Isabelle
  imports Complex_Main "HOL-Library.Word"
begin

section \<open>The download queue and transfer engine of App.tsx\<close>

text \<open>
  The development embeds the download engine of the top-level component \<^verbatim>\<open>App\<close>
  (\<^verbatim>\<open>src/App.tsx\<close>): the handlers \<^verbatim>\<open>requestDownload\<close>, \<^verbatim>\<open>executeDownload\<close>,
  \<^verbatim>\<open>pauseDownload\<close>, \<^verbatim>\<open>deleteDownload\<close>, \<^verbatim>\<open>clearCompleted\<close>, the queue processor effect
  and the two effects that persist and restore the collection.

  Conventions of the embedding.
  \<^item> JavaScript numbers are exact rationals (\<^typ>\<open>rat\<close>), \<^verbatim>\<open>Date.now()\<close> is an integer
    number of milliseconds supplied by the environment. Rounding of IEEE doubles is not
    modelled.
  \<^item> An \<^verbatim>\<open>async\<close> function is a task: it runs up to its next \<^verbatim>\<open>await\<close>, is stored in the
    task table, and is resumed by the environment with the outcome of the awaited
    promise. Between two \<^verbatim>\<open>await\<close>s a handler runs without interruption (JavaScript is
    single threaded).
  \<^item> \<^verbatim>\<open>setDownloads(prev => ...)\<close> is applied to the current collection. A handler that reads
    the variable \<^verbatim>\<open>downloads\<close> of its closure takes that snapshot as an explicit argument.
  \<^item> Toasts, the storage meter and every other piece of user interface state are left out.
\<close>

subsection \<open>types.ts\<close>

datatype status = Queued | Downloading | Completed | Failed | Paused

text \<open>Of \<^verbatim>\<open>Movie\<close> only the three fields that the engine reads are kept.\<close>

record Movie =
  id_m :: string
  title :: string
  videoUrl :: string

record DownloadItem =
  movieId :: string
  progress :: rat
  status :: status
  expiry :: int
  totalSizeMB :: rat
  downloadedSizeMB :: rat
  speed :: "rat option"

subsection \<open>Tasks, awaited promises and the component state\<close>

type_synonym byte = "8 word"

text \<open>A thrown value; the handler of \<^verbatim>\<open>executeDownload\<close> only looks at its \<^verbatim>\<open>name\<close>.\<close>

datatype js_error = Thrown (err_name: string)

datatype await_point = AwaitFetch | AwaitRead | AwaitSaveVideo | AwaitEstimate

text \<open>
  The local variables of one call of \<^verbatim>\<open>executeDownload\<close>. The \<^verbatim>\<open>AbortController\<close> created by
  the call is identified with the task; \<open>aborted\<close> is the state of its signal.
\<close>

record transfer =
  movie :: Movie
  aborted :: bool
  awaiting :: await_point
  totalLength :: int
  chunks :: "byte list list"
  receivedLength :: nat
  lastTime :: int
  lastReceived :: nat

datatype task =
    Transfer transfer
  | DeleteVideoPending string bool
  | DeleteEstimatePending string bool
  | ClearVideoPending "DownloadItem list"
  | ClearEstimatePending

text \<open>
  What the environment answers to an \<^verbatim>\<open>await\<close>: the response of \<^verbatim>\<open>fetch\<close> (whether it has a
  body, the parsed \<^verbatim>\<open>Content-Length\<close> header if there is one, and the clock), one chunk of the
  reader with the clock, the end of the stream, a promise that resolves without a value that
  is used, or a rejection. A header that \<^verbatim>\<open>parseInt\<close> turns into \<^verbatim>\<open>NaN\<close> behaves in every
  comparison of the source like the value 0 and is represented by it.
\<close>

datatype outcome =
    Response bool "int option" int
  | Chunk "byte list" int
  | Done
  | Resolved
  | Rejected js_error

record app =
  downloads :: "DownloadItem list"
  movies :: "Movie list"
  activeDownloads :: "string \<rightharpoonup> nat"
  tasks :: "nat \<rightharpoonup> task"
  next_task :: nat
  videos :: "string \<rightharpoonup> byte list"

definition setDownloads :: "(DownloadItem list \<Rightarrow> DownloadItem list) \<Rightarrow> app \<Rightarrow> app" where
  "setDownloads f s = s\<lparr>downloads := f (downloads s)\<rparr>"

definition spawn :: "task \<Rightarrow> app \<Rightarrow> app" where
  "spawn k s = s\<lparr>tasks := (tasks s)(next_task s \<mapsto> k), next_task := Suc (next_task s)\<rparr>"

definition suspend :: "nat \<Rightarrow> task \<Rightarrow> app \<Rightarrow> app" where
  "suspend t k s = s\<lparr>tasks := (tasks s)(t \<mapsto> k)\<rparr>"

definition finish :: "nat \<Rightarrow> app \<Rightarrow> app" where
  "finish t s = s\<lparr>tasks := (tasks s)(t := None)\<rparr>"

subsection \<open>The blob store (services/offlineStorage)\<close>

text \<open>
  Modelled from the spec: \<^verbatim>\<open>saveVideo\<close>, \<^verbatim>\<open>deleteVideo\<close> and \<^verbatim>\<open>getStorageEstimate\<close> of
  \<^verbatim>\<open>services/offlineStorage\<close> are not part of the sources. After the contract of the blob
  store, \<open>put\<close> stores the bytes under the key and overwrites a prior value, \<open>delete\<close> removes
  the entry and is idempotent, either of them may fail with a storage error and then leaves
  the store as it was, and the usage estimate is best effort and does not fail. The write
  takes effect when the promise resolves.
\<close>

definition saveVideo_resolved :: "string \<Rightarrow> byte list \<Rightarrow> app \<Rightarrow> app" where
  "saveVideo_resolved k blob s = s\<lparr>videos := (videos s)(k \<mapsto> blob)\<rparr>"

definition deleteVideo_resolved :: "string \<Rightarrow> app \<Rightarrow> app" where
  "deleteVideo_resolved k s = s\<lparr>videos := (videos s)(k := None)\<rparr>"

subsection \<open>executeDownload\<close>

definition abort :: "nat \<Rightarrow> app \<Rightarrow> app" where
  "abort c s =
     (case tasks s c of
        Some (Transfer x) \<Rightarrow> s\<lparr>tasks := (tasks s)(c \<mapsto> Transfer (x\<lparr>aborted := True\<rparr>))\<rparr>
      | _ \<Rightarrow> s)"

text \<open>The synchronous prefix of \<^verbatim>\<open>executeDownload\<close>, up to \<^verbatim>\<open>await fetch(...)\<close>.\<close>

definition executeDownload :: "Movie \<Rightarrow> app \<Rightarrow> app" where
  "executeDownload mv s =
     (let s1 = setDownloads (map (\<lambda>d. if movieId d = id_m mv then d\<lparr>status := Downloading\<rparr> else d)) s;
          c = next_task s1
      in spawn (Transfer \<lparr>movie = mv, aborted = False, awaiting = AwaitFetch, totalLength = 0,
                          chunks = [], receivedLength = 0, lastTime = 0, lastReceived = 0\<rparr>)
           (s1\<lparr>activeDownloads := (activeDownloads s1)(id_m mv \<mapsto> c)\<rparr>))"

text \<open>The \<^verbatim>\<open>catch\<close> and \<^verbatim>\<open>finally\<close> blocks.\<close>

definition executeDownload_catch :: "Movie \<Rightarrow> js_error \<Rightarrow> app \<Rightarrow> app" where
  "executeDownload_catch mv err s =
     (if err_name err = ''AbortError''
      then setDownloads (map (\<lambda>d. if movieId d = id_m mv \<and> status d = Downloading
                                    then d\<lparr>status := Paused, speed := Some 0\<rparr> else d)) s
      else setDownloads (map (\<lambda>d. if movieId d = id_m mv
                                    then d\<lparr>status := Failed, speed := Some 0\<rparr> else d)) s)"

definition executeDownload_finally :: "nat \<Rightarrow> Movie \<Rightarrow> app \<Rightarrow> app" where
  "executeDownload_finally c mv s =
     finish c (s\<lparr>activeDownloads := (activeDownloads s)(id_m mv := None)\<rparr>)"

definition executeDownload_throw :: "nat \<Rightarrow> Movie \<Rightarrow> js_error \<Rightarrow> app \<Rightarrow> app" where
  "executeDownload_throw c mv err s = executeDownload_finally c mv (executeDownload_catch mv err s)"

text \<open>The body of \<^verbatim>\<open>if (now - lastTime > 800)\<close>: the sample published to the collection.\<close>

definition publish :: "string \<Rightarrow> int \<Rightarrow> nat \<Rightarrow> nat \<Rightarrow> int \<Rightarrow> int \<Rightarrow> DownloadItem \<Rightarrow> DownloadItem" where
  "publish i total_len received last_received last_time now d =
     (let total_mb = of_int total_len / (1024 * 1024);
          current_mb = of_nat received / (1024 * 1024);
          bytesDiff = of_nat received - of_nat last_received;
          timeDiff = of_int (now - last_time) / 1000;
          speed_now = (bytesDiff / (1024 * 1024)) / timeDiff;
          progress_now = (if total_len > 0 then (of_nat received / of_int total_len) * 100 else 0)
      in if movieId d = i
         then d\<lparr>progress := progress_now, downloadedSizeMB := current_mb,
                totalSizeMB := (if total_len > 0 then total_mb else current_mb),
                speed := Some speed_now\<rparr>
         else d)"

text \<open>
  The continuation of \<^verbatim>\<open>executeDownload\<close> at each \<^verbatim>\<open>await\<close>, by the outcome of the awaited
  promise. An outcome that the awaited promise cannot have leaves the state as it is.
\<close>

fun executeDownload_cont :: "await_point \<Rightarrow> outcome \<Rightarrow> nat \<Rightarrow> transfer \<Rightarrow> app \<Rightarrow> app" where
  "executeDownload_cont AwaitFetch (Response has_body contentLength now) c x s =
     (if \<not> has_body then executeDownload_throw c (movie x) (Thrown ''Error'') s
      else
        let total_len = (case contentLength of Some n \<Rightarrow> n | None \<Rightarrow> 0);
            total_mb = of_int total_len / (1024 * 1024);
            s1 = (if total_len > 0
                  then setDownloads (map (\<lambda>d. if movieId d = id_m (movie x)
                                                then d\<lparr>totalSizeMB := total_mb\<rparr> else d)) s
                  else s)
        in suspend c (Transfer (x\<lparr>awaiting := AwaitRead, totalLength := total_len, chunks := [],
                                 receivedLength := 0, lastTime := now, lastReceived := 0\<rparr>)) s1)"
| "executeDownload_cont AwaitFetch (Rejected err) c x s = executeDownload_throw c (movie x) err s"
| "executeDownload_cont AwaitRead Done c x s = suspend c (Transfer (x\<lparr>awaiting := AwaitSaveVideo\<rparr>)) s"
| "executeDownload_cont AwaitRead (Chunk v now) c x s =
     (let received = receivedLength x + length v
      in if now - lastTime x > 800
         then suspend c (Transfer (x\<lparr>chunks := chunks x @ [v], receivedLength := received,
                                     lastTime := now, lastReceived := received\<rparr>))
                (setDownloads (map (publish (id_m (movie x)) (totalLength x) received
                                      (lastReceived x) (lastTime x) now)) s)
         else suspend c (Transfer (x\<lparr>chunks := chunks x @ [v], receivedLength := received\<rparr>)) s)"
| "executeDownload_cont AwaitRead (Rejected err) c x s = executeDownload_throw c (movie x) err s"
| "executeDownload_cont AwaitSaveVideo Resolved c x s =
     suspend c (Transfer (x\<lparr>awaiting := AwaitEstimate\<rparr>))
       (saveVideo_resolved (id_m (movie x)) (concat (chunks x)) s)"
| "executeDownload_cont AwaitSaveVideo (Rejected err) c x s = executeDownload_throw c (movie x) err s"
| "executeDownload_cont AwaitEstimate Resolved c x s =
     executeDownload_finally c (movie x)
       (setDownloads (map (\<lambda>d. if movieId d = id_m (movie x)
                                 then d\<lparr>status := Completed, progress := 100, speed := Some 0\<rparr>
                                 else d)) s)"
| "executeDownload_cont _ _ c x s = s"

text \<open>
  Once \<^verbatim>\<open>controller.abort()\<close> was called, a pending \<^verbatim>\<open>fetch\<close> or \<^verbatim>\<open>reader.read()\<close> can only
  reject with an \<^verbatim>\<open>AbortError\<close>; the writes to the blob store do not listen to the signal.
\<close>

definition executeDownload_resume :: "nat \<Rightarrow> transfer \<Rightarrow> outcome \<Rightarrow> app \<Rightarrow> app" where
  "executeDownload_resume c x out s =
     (if aborted x \<and> (awaiting x = AwaitFetch \<or> awaiting x = AwaitRead) \<and> out \<noteq> Rejected (Thrown ''AbortError'')
      then s
      else executeDownload_cont (awaiting x) out c x s)"

subsection \<open>pauseDownload, deleteDownload, clearCompleted\<close>

text \<open>The block \<^verbatim>\<open>if (controller) { controller.abort(); activeDownloadsRef.current.delete(movieId) }\<close>.\<close>

definition abort_if_running :: "string \<Rightarrow> app \<Rightarrow> app" where
  "abort_if_running i s =
     (case activeDownloads s i of
        Some c \<Rightarrow> (abort c s)\<lparr>activeDownloads := (activeDownloads s)(i := None)\<rparr>
      | None \<Rightarrow> s)"

definition pauseDownload :: "string \<Rightarrow> app \<Rightarrow> app" where
  "pauseDownload i s =
     setDownloads (map (\<lambda>d. if movieId d = i then d\<lparr>status := Paused, speed := Some 0\<rparr> else d))
       (abort_if_running i s)"

definition deleteDownload :: "string \<Rightarrow> bool \<Rightarrow> app \<Rightarrow> app" where
  "deleteDownload i removeMetadata s = spawn (DeleteVideoPending i removeMetadata) (abort_if_running i s)"

definition deleteDownload_after :: "nat \<Rightarrow> string \<Rightarrow> bool \<Rightarrow> app \<Rightarrow> app" where
  "deleteDownload_after t i removeMetadata s =
     finish t (if removeMetadata then setDownloads (filter (\<lambda>d. movieId d \<noteq> i)) s else s)"

definition clearCompleted :: "DownloadItem list \<Rightarrow> app \<Rightarrow> app" where
  "clearCompleted snapshot s =
     (let completed = filter (\<lambda>d. status d = Completed) snapshot
      in spawn (if completed = [] then ClearEstimatePending else ClearVideoPending completed) s)"

text \<open>
  The continuations of \<^verbatim>\<open>deleteDownload\<close> (whose \<^verbatim>\<open>try\<close> block catches a rejection of the
  store) and of \<^verbatim>\<open>clearCompleted\<close> (which has no \<^verbatim>\<open>try\<close> block: a rejection ends the call).
\<close>

fun resume :: "nat \<Rightarrow> task \<Rightarrow> outcome \<Rightarrow> app \<Rightarrow> app" where
  "resume t (Transfer x) out s = executeDownload_resume t x out s"
| "resume t (DeleteVideoPending i rm) Resolved s =
     suspend t (DeleteEstimatePending i rm) (deleteVideo_resolved i s)"
| "resume t (DeleteVideoPending i rm) (Rejected err) s = deleteDownload_after t i rm s"
| "resume t (DeleteEstimatePending i rm) Resolved s = deleteDownload_after t i rm s"
| "resume t (ClearVideoPending (d # rest)) Resolved s =
     suspend t (if rest = [] then ClearEstimatePending else ClearVideoPending rest)
       (deleteVideo_resolved (movieId d) s)"
| "resume t (ClearVideoPending ds) (Rejected err) s = finish t s"
| "resume t ClearEstimatePending Resolved s =
     finish t (setDownloads (filter (\<lambda>d. status d \<noteq> Completed)) s)"
| "resume t k out s = s"

subsection \<open>requestDownload and the queue processor\<close>

definition newItem :: "Movie \<Rightarrow> nat \<Rightarrow> int \<Rightarrow> DownloadItem" where
  "newItem mv activeCount now =
     \<lparr>movieId = id_m mv, progress = 0,
      status = (if activeCount = 0 then Downloading else Queued),
      expiry = now + 172800000, totalSizeMB = 0, downloadedSizeMB = 0, speed = Some 0\<rparr>"

definition requestDownload_admit :: "DownloadItem list \<Rightarrow> Movie \<Rightarrow> int \<Rightarrow> app \<Rightarrow> app" where
  "requestDownload_admit snapshot mv now s =
     (let activeCount = length (filter (\<lambda>d. status d = Downloading) snapshot);
          s1 = setDownloads (\<lambda>prev. filter (\<lambda>d. movieId d \<noteq> id_m mv) prev @ [newItem mv activeCount now]) s
      in if activeCount > 0 then s1 else executeDownload mv s1)"

definition requestDownload :: "DownloadItem list \<Rightarrow> Movie \<Rightarrow> int \<Rightarrow> app \<Rightarrow> app" where
  "requestDownload snapshot mv now s =
     (case find (\<lambda>d. movieId d = id_m mv) snapshot of
        Some existing \<Rightarrow>
          if status existing = Paused
          then requestDownload_admit snapshot mv now (deleteDownload (id_m mv) False s)
          else s
      | None \<Rightarrow> requestDownload_admit snapshot mv now s)"

text \<open>The effect \<^verbatim>\<open>Queue Processor\<close>, run after every render in which \<^verbatim>\<open>downloads\<close> changed.\<close>

definition queue_processor :: "DownloadItem list \<Rightarrow> app \<Rightarrow> app" where
  "queue_processor snapshot s =
     (if length (filter (\<lambda>d. status d = Downloading) snapshot) = 0
      then (case find (\<lambda>d. status d = Queued) snapshot of
              Some nextInQueue \<Rightarrow>
                (case find (\<lambda>m. id_m m = movieId nextInQueue) (movies s) of
                   Some mv \<Rightarrow> executeDownload mv s
                 | None \<Rightarrow> s)
            | None \<Rightarrow> s)
      else s)"

subsection \<open>Persistence of the collection in localStorage\<close>

datatype json = JNumber rat | JString string | JArray "json list" | JObject "(string \<times> json) list"

fun status_string :: "status \<Rightarrow> string" where
  "status_string Queued = ''queued''"
| "status_string Downloading = ''downloading''"
| "status_string Completed = ''completed''"
| "status_string Failed = ''failed''"
| "status_string Paused = ''paused''"

definition status_of_string :: "string \<Rightarrow> status option" where
  "status_of_string x =
     (if x = ''queued'' then Some Queued
      else if x = ''downloading'' then Some Downloading
      else if x = ''completed'' then Some Completed
      else if x = ''failed'' then Some Failed
      else if x = ''paused'' then Some Paused
      else None)"

text \<open>
  \<^verbatim>\<open>JSON.stringify\<close> of one item: every own property in the order of the object literal of
  \<^verbatim>\<open>requestDownload\<close>; a property whose value is \<^verbatim>\<open>undefined\<close> is left out.
\<close>

definition stringify_item :: "DownloadItem \<Rightarrow> json" where
  "stringify_item d =
     JObject ([(''movieId'', JString (movieId d)),
               (''progress'', JNumber (progress d)),
               (''status'', JString (status_string (status d))),
               (''expiry'', JNumber (of_int (expiry d))),
               (''totalSizeMB'', JNumber (totalSizeMB d)),
               (''downloadedSizeMB'', JNumber (downloadedSizeMB d))]
              @ (case speed d of Some v \<Rightarrow> [(''speed'', JNumber v)] | None \<Rightarrow> []))"

text \<open>The persistence effect: \<^verbatim>\<open>localStorage.setItem('downloads', JSON.stringify(downloads))\<close>.\<close>

definition persist :: "DownloadItem list \<Rightarrow> json" where
  "persist ds = JArray (map stringify_item ds)"

text \<open>
  Reading a parsed object at the type \<^verbatim>\<open>DownloadItem\<close>. The source casts without a check;
  a value that is not of the shape the persistence effect writes has no counterpart in the
  record type and is read as \<open>None\<close>.
\<close>

definition item_of_json :: "json \<Rightarrow> DownloadItem option" where
  "item_of_json j =
     (case j of
        JObject kvs \<Rightarrow>
          (case (map_of kvs ''movieId'', map_of kvs ''progress'', map_of kvs ''status'',
                 map_of kvs ''expiry'', map_of kvs ''totalSizeMB'', map_of kvs ''downloadedSizeMB'') of
             (Some (JString i), Some (JNumber p), Some (JString st), Some (JNumber e),
              Some (JNumber tot), Some (JNumber dl)) \<Rightarrow>
               (case status_of_string st of
                  Some st' \<Rightarrow>
                    Some \<lparr>movieId = i, progress = p, status = st', expiry = \<lfloor>e\<rfloor>,
                          totalSizeMB = tot, downloadedSizeMB = dl,
                          speed = (case map_of kvs ''speed'' of Some (JNumber v) \<Rightarrow> Some v | _ \<Rightarrow> None)\<rparr>
                | None \<Rightarrow> None)
           | _ \<Rightarrow> None)
      | _ \<Rightarrow> None)"

fun items_of_json :: "json list \<Rightarrow> DownloadItem list option" where
  "items_of_json [] = Some []"
| "items_of_json (j # js) =
     (case item_of_json j of
        Some d \<Rightarrow> (case items_of_json js of Some ds \<Rightarrow> Some (d # ds) | None \<Rightarrow> None)
      | None \<Rightarrow> None)"

text \<open>
  The initializer of the state: \<^verbatim>\<open>saved ? JSON.parse(saved) : []\<close>. localStorage only ever
  holds what the persistence effect wrote; a saved value of another shape, which the record
  type cannot represent, is read as the empty collection.
\<close>

definition load :: "json option \<Rightarrow> DownloadItem list" where
  "load saved =
     (case saved of
        Some (JArray js) \<Rightarrow> (case items_of_json js of Some ds \<Rightarrow> ds | None \<Rightarrow> [])
      | _ \<Rightarrow> [])"

subsection \<open>The component as a transition system\<close>

datatype event =
    RequestDownload Movie int
  | PauseDownload string
  | DeleteDownload string
  | ClearCompleted
  | Resume nat outcome
  | Restart

text \<open>
  One event: a click on a control of the downloads view (the handler runs in the closure of
  the last render, whose \<^verbatim>\<open>downloads\<close> is the current collection), the resumption of a
  suspended task, or a reload of the page, after which the collection is read back from
  localStorage, the blob store is kept, and every task and controller is gone.
\<close>

definition handle :: "event \<Rightarrow> app \<Rightarrow> app" where
  "handle e s =
     (case e of
        RequestDownload mv now \<Rightarrow> requestDownload (downloads s) mv now s
      | PauseDownload i \<Rightarrow> pauseDownload i s
      | DeleteDownload i \<Rightarrow> deleteDownload i True s
      | ClearCompleted \<Rightarrow> clearCompleted (downloads s) s
      | Resume t out \<Rightarrow> (case tasks s t of Some k \<Rightarrow> resume t k out s | None \<Rightarrow> s)
      | Restart \<Rightarrow> s\<lparr>downloads := load (Some (persist (downloads s))),
                      activeDownloads := Map.empty, tasks := Map.empty\<rparr>)"

text \<open>After the handler the component renders and the queue processor runs on what it rendered.\<close>

definition step :: "event \<Rightarrow> app \<Rightarrow> app" where
  "step e s = (let s1 = handle e s in queue_processor (downloads s1) s1)"

fun run :: "event list \<Rightarrow> app \<Rightarrow> app" where
  "run [] s = s"
| "run (e # es) s = run es (step e s)"

text \<open>The component on first mount, with nothing in localStorage and an empty blob store.\<close>

definition initial :: "Movie list \<Rightarrow> app" where
  "initial mvs = \<lparr>downloads = load None, movies = mvs, activeDownloads = Map.empty,
                   tasks = Map.empty, next_task = 0, videos = Map.empty\<rparr>"

text \<open>Several handlers in a row, without the queue processor in between.\<close>

fun handles :: "event list \<Rightarrow> app \<Rightarrow> app" where
  "handles [] s = s"
| "handles (e # es) s = handles es (handle e s)"

text \<open>Whether an event is a request for the movie \<open>i\<close>.\<close>

fun requests :: "string \<Rightarrow> event \<Rightarrow> bool" where
  "requests i (RequestDownload mv now) = (id_m mv = i)"
| "requests i e = False"

text \<open>The resumptions of the task \<open>c\<close> with a list of chunks, each with the clock at its arrival.\<close>

definition chunk_events :: "nat \<Rightarrow> (byte list \<times> int) list \<Rightarrow> event list" where
  "chunk_events c cs = map (\<lambda>(v, now). Resume c (Chunk v now)) cs"

text \<open>
  The variable \<^verbatim>\<open>lastReceived\<close> of \<^verbatim>\<open>executeDownload\<close> when its read loop has consumed the given
  chunks, started with the given \<^verbatim>\<open>lastTime\<close>, \<^verbatim>\<open>receivedLength\<close> and \<^verbatim>\<open>lastReceived\<close>: the
  number of bytes received when the loop last published a sample.
\<close>

fun last_sample :: "int \<Rightarrow> nat \<Rightarrow> nat \<Rightarrow> (byte list \<times> int) list \<Rightarrow> nat" where
  "last_sample last_time received last_received [] = last_received"
| "last_sample last_time received last_received ((v, now) # cs) =
     (if now - last_time > 800
      then last_sample now (received + length v) (received + length v) cs
      else last_sample last_time (received + length v) last_received cs)"

subsection \<open>The downloads view\<close>

text \<open>
  The two sizes that the downloads view prints, before \<^verbatim>\<open>toFixed\<close> rounds them: the downloaded
  size next to the label MB and the total size of a completed item next to the label GB.
\<close>

definition shown_downloaded_mb :: "DownloadItem \<Rightarrow> rat" where
  "shown_downloaded_mb item = downloadedSizeMB item"

definition shown_total_gb :: "DownloadItem \<Rightarrow> rat" where
  "shown_total_gb item = totalSizeMB item / 1024"

subsection \<open>Auxiliary notions for the proofs\<close>

text \<open>The number the source calls \<^verbatim>\<open>activeCount\<close>.\<close>

definition activeCount :: "DownloadItem list \<Rightarrow> nat" where
  "activeCount ds = length (filter (\<lambda>d. status d = Downloading) ds)"

text \<open>The invariant of the collection: one entry per movie, at most one of them downloading.\<close>

definition queue_ok :: "DownloadItem list \<Rightarrow> bool" where
  "queue_ok ds \<longleftrightarrow> distinct (map movieId ds) \<and> activeCount ds \<le> 1"

text \<open>
  An update of the collection is quiet when it rewrites entries without changing an identifier
  and without making an entry downloading, and then possibly drops entries.
\<close>

definition quiet :: "DownloadItem list \<Rightarrow> DownloadItem list \<Rightarrow> bool" where
  "quiet ds ds' \<longleftrightarrow>
     (\<exists>f P. ds' = filter P (map f ds) \<and> (\<forall>d. movieId (f d) = movieId d)
            \<and> (\<forall>d. status (f d) = Downloading \<longrightarrow> status d = Downloading))"

subsection \<open>Concrete runs\<close>

text \<open>A small catalogue for the concrete runs.\<close>

definition movie_a :: Movie where
  "movie_a = \<lparr>id_m = ''a'', title = ''A'', videoUrl = ''https://cdn.example/a.mp4''\<rparr>"

definition movie_b :: Movie where
  "movie_b = \<lparr>id_m = ''b'', title = ''B'', videoUrl = ''https://cdn.example/b.mp4''\<rparr>"

definition movie_c :: Movie where
  "movie_c = \<lparr>id_m = ''c'', title = ''C'', videoUrl = ''https://cdn.example/c.mp4''\<rparr>"

text \<open>A state in which the transfer of \<open>movie_a\<close> is reading its stream.\<close>

definition transfer_a :: transfer where
  "transfer_a = \<lparr>movie = movie_a, aborted = False, awaiting = AwaitRead, totalLength = 4,
                  chunks = [[1, 2, 3, 4]], receivedLength = 4, lastTime = 10, lastReceived = 0\<rparr>"

definition item_a :: "status \<Rightarrow> DownloadItem" where
  "item_a st = \<lparr>movieId = ''a'', progress = 0, status = st, expiry = 172800000,
                totalSizeMB = 1 / 262144, downloadedSizeMB = 0, speed = Some 0\<rparr>"

definition downloading_a :: app where
  "downloading_a = run [RequestDownload movie_a 0, Resume 0 (Response True (Some 4) 10),
                          Resume 0 (Chunk [1, 2, 3, 4] 20)]
                     (initial [movie_a, movie_b, movie_c])"

text \<open>The same transfer after the end of its stream and the two confirmations of the store.\<close>

definition completed_a :: app where
  "completed_a = run [Resume 0 Done, Resume 0 Resolved, Resume 0 Resolved] downloading_a"

text \<open>Three requests in a row, and the first transfer up to the confirmation of its write.\<close>

definition queue_abc :: app where
  "queue_abc = run [RequestDownload movie_a 0, RequestDownload movie_b 1, RequestDownload movie_c 2,
                    Resume 0 (Response True (Some 4) 10), Resume 0 (Chunk [1, 2, 3, 4] 20),
                    Resume 0 Done, Resume 0 Resolved]
                 (initial [movie_a, movie_b, movie_c])"

text \<open>The collection that the last step of that transfer leaves to the queue processor.\<close>

definition freed_bc :: app where
  "freed_bc = handle (Resume 0 Resolved) queue_abc"

text \<open>The second transfer is paused while the third item waits.\<close>

definition paused_b :: app where
  "paused_b = run [Resume 0 Resolved, PauseDownload ''b'', Resume 1 (Rejected (Thrown ''AbortError''))] queue_abc"

text \<open>The only transfer is paused.\<close>

definition paused_a :: app where
  "paused_a = run [PauseDownload ''a'', Resume 0 (Rejected (Thrown ''AbortError''))] downloading_a"

text \<open>The only transfer has failed.\<close>

definition failed_a :: app where
  "failed_a = run [Resume 0 (Rejected (Thrown ''TypeError''))] downloading_a"

text \<open>A transfer of 8 announced bytes, opened and then sampled after its first chunk.\<close>

definition opened_a :: app where
  "opened_a = run [RequestDownload movie_a 0, Resume 0 (Response True (Some 8) 10)]
                (initial [movie_a, movie_b, movie_c])"

definition sampled_a :: app where
  "sampled_a = run [Resume 0 (Chunk [1, 2, 3, 4] 1010)] opened_a"

text \<open>Two transfers, one after the other, both completed.\<close>

definition completed_ab :: app where
  "completed_ab = run [RequestDownload movie_a 0, RequestDownload movie_b 1,
                       Resume 0 (Response True (Some 4) 10), Resume 0 (Chunk [1, 2, 3, 4] 20),
                       Resume 0 Done, Resume 0 Resolved, Resume 0 Resolved,
                       Resume 1 (Response True (Some 2) 30), Resume 1 (Chunk [9, 9] 40),
                       Resume 1 Done, Resume 1 Resolved, Resume 1 Resolved]
                    (initial [movie_a, movie_b, movie_c])"

text \<open>The first request, before the response of \<^verbatim>\<open>fetch\<close>.\<close>

definition requested_a :: app where
  "requested_a = run [RequestDownload movie_a 0] (initial [movie_a, movie_b, movie_c])"

text \<open>
  A movie that the catalogue does not hold (the catalogue is not persisted, the collection is:
  after a reload the entry of a movie added through the admin panel refers to no movie of the
  catalogue), and a queue in which its entry is the earliest queued one.
\<close>

definition movie_z :: Movie where
  "movie_z = \<lparr>id_m = ''z'', title = ''Z'', videoUrl = ''https://cdn.example/z.mp4''\<rparr>"

definition stuck_zb :: app where
  "stuck_zb = run [RequestDownload movie_a 0, RequestDownload movie_z 1, RequestDownload movie_b 2,
                   Resume 0 (Response True (Some 4) 10), Resume 0 (Chunk [1, 2, 3, 4] 20),
                   Resume 0 Done, Resume 0 Resolved, Resume 0 Resolved]
                (initial [movie_a, movie_b, movie_c])"

section \<open>Properties\<close>

subsection \<open>Projections of the state\<close>

lemma downloads_simps [simp]:
  "downloads (setDownloads f s) = f (downloads s)"
  "downloads (spawn k s) = downloads s"
  "downloads (suspend t k s) = downloads s"
  "downloads (finish t s) = downloads s"
  "downloads (abort c s) = downloads s"
  "downloads (abort_if_running i s) = downloads s"
  "downloads (saveVideo_resolved i b s) = downloads s"
  "downloads (deleteVideo_resolved i s) = downloads s"
  by (simp_all add: setDownloads_def spawn_def suspend_def finish_def abort_def abort_if_running_def
        saveVideo_resolved_def deleteVideo_resolved_def split: option.splits task.splits)

lemma downloads_executeDownload [simp]:
  "downloads (executeDownload mv s) =
     map (\<lambda>d. if movieId d = id_m mv then d\<lparr>status := Downloading\<rparr> else d) (downloads s)"
  by (simp add: executeDownload_def Let_def)

lemma downloads_deleteDownload [simp]: "downloads (deleteDownload i rm s) = downloads s"
  by (simp add: deleteDownload_def)

lemma videos_simps [simp]:
  "videos (setDownloads f s) = videos s"
  "videos (spawn k s) = videos s"
  "videos (suspend t k s) = videos s"
  "videos (finish t s) = videos s"
  "videos (abort c s) = videos s"
  "videos (abort_if_running i s) = videos s"
  "videos (saveVideo_resolved i b s) = (videos s)(i \<mapsto> b)"
  "videos (deleteVideo_resolved i s) = (videos s)(i := None)"
  by (simp_all add: setDownloads_def spawn_def suspend_def finish_def abort_def abort_if_running_def
        saveVideo_resolved_def deleteVideo_resolved_def split: option.splits task.splits)

lemma tasks_simps [simp]:
  "tasks (setDownloads f s) = tasks s"
  "tasks (spawn k s) = (tasks s)(next_task s \<mapsto> k)"
  "tasks (suspend t k s) = (tasks s)(t \<mapsto> k)"
  "tasks (finish t s) = (tasks s)(t := None)"
  "tasks (saveVideo_resolved i b s) = tasks s"
  "tasks (deleteVideo_resolved i s) = tasks s"
  by (simp_all add: setDownloads_def spawn_def suspend_def finish_def
        saveVideo_resolved_def deleteVideo_resolved_def)

lemma activeDownloads_simps [simp]:
  "activeDownloads (setDownloads f s) = activeDownloads s"
  "activeDownloads (spawn k s) = activeDownloads s"
  "activeDownloads (suspend t k s) = activeDownloads s"
  "activeDownloads (finish t s) = activeDownloads s"
  "activeDownloads (abort c s) = activeDownloads s"
  "activeDownloads (saveVideo_resolved i b s) = activeDownloads s"
  "activeDownloads (deleteVideo_resolved i s) = activeDownloads s"
  by (simp_all add: setDownloads_def spawn_def suspend_def finish_def abort_def
        saveVideo_resolved_def deleteVideo_resolved_def split: option.splits task.splits)

lemma next_task_abort_if_running [simp]: "next_task (abort_if_running i s) = next_task s"
  by (simp add: abort_if_running_def abort_def split: option.splits task.splits)

lemma throw_rest [simp]:
  "videos (executeDownload_throw c mv err s) = videos s"
  "tasks (executeDownload_throw c mv err s) = (tasks s)(c := None)"
  "activeDownloads (executeDownload_throw c mv err s) = (activeDownloads s)(id_m mv := None)"
  by (simp_all add: executeDownload_throw_def executeDownload_finally_def executeDownload_catch_def finish_def setDownloads_def)


lemma admit_keeps_task:
  "t < next_task s \<Longrightarrow> tasks (requestDownload_admit snapshot mv now s) t = tasks s t"
  by (simp add: requestDownload_admit_def Let_def executeDownload_def spawn_def setDownloads_def)

subsection \<open>Lists of items\<close>

lemma map_untouched:
  assumes "i \<notin> movieId ` set xs" and "\<And>e. movieId e \<noteq> i \<Longrightarrow> f e = e"
  shows "map f xs = xs"
proof (rule map_idI)
  fix e assume "e \<in> set xs"
  with assms(1) have "movieId e \<noteq> i" by auto
  then show "f e = e" by (rule assms(2))
qed

lemma promote_absent:
  "i \<notin> set (map movieId ds) \<Longrightarrow>
     map (\<lambda>d. if movieId d = i then d\<lparr>status := Downloading\<rparr> else d) ds = ds"
  by (induction ds) auto

lemma find_past:
  assumes "\<forall>d\<in>set pre. \<not> P d" and "P q"
  shows "find P (pre @ q # post) = Some q"
  using assms by (induction pre) simp_all

lemma find_key:
  "find (\<lambda>d. movieId d = i) ds = Some e \<Longrightarrow> e \<in> set ds \<and> movieId e = i"
  by (induction ds) (auto split: if_splits)

lemma find_movie: "find (\<lambda>m. id_m m = i) ms = Some mv \<Longrightarrow> id_m mv = i"
  by (induction ms) (auto split: if_splits)

lemma find_status: "find (\<lambda>d. status d = Queued) ds = Some q \<Longrightarrow> q \<in> set ds \<and> status q = Queued"
  by (induction ds) (auto split: if_splits)

subsection \<open>Quiet updates of the collection\<close>

lemma quiet_refl: "quiet ds ds"
  unfolding quiet_def by (rule exI [of _ "\<lambda>d. d"], rule exI [of _ "\<lambda>d. True"]) simp

lemma quiet_map:
  assumes "\<And>d. movieId (f d) = movieId d"
    and "\<And>d. status (f d) = Downloading \<Longrightarrow> status d = Downloading"
  shows "quiet ds (map f ds)"
  unfolding quiet_def using assms by (intro exI [of _ f] exI [of _ "\<lambda>d. True"]) simp

lemma quiet_filter: "quiet ds (filter P ds)"
  unfolding quiet_def by (intro exI [of _ "\<lambda>d. d"] exI [of _ P]) simp

lemma activeCount_map_le:
  assumes "\<And>d. status (f d) = Downloading \<Longrightarrow> status d = Downloading"
  shows "activeCount (map f ds) \<le> activeCount ds"
  unfolding activeCount_def using assms by (induction ds) auto

lemma activeCount_filter_le: "activeCount (filter P ds) \<le> activeCount ds"
  unfolding activeCount_def by (induction ds) auto

lemma quiet_ids: "quiet ds ds' \<Longrightarrow> set (map movieId ds') \<subseteq> set (map movieId ds)"
  unfolding quiet_def by auto

lemma quiet_queue_ok:
  assumes "quiet ds ds'" and "queue_ok ds"
  shows "queue_ok ds'"
proof -
  from assms(1) obtain f P where ds': "ds' = filter P (map f ds)"
    and calm: "\<And>d. movieId (f d) = movieId d"
    and still: "\<And>d. status (f d) = Downloading \<Longrightarrow> status d = Downloading"
    unfolding quiet_def by blast
  have eq: "map movieId (map f ds) = map movieId ds" by (induction ds) (simp_all add: calm)
  have "distinct (map movieId (map f ds))" unfolding eq using assms(2) by (simp add: queue_ok_def)
  then have d: "distinct (map movieId ds')" unfolding ds' by (rule distinct_map_filter)
  have "activeCount ds' \<le> activeCount (map f ds)" unfolding ds' by (rule activeCount_filter_le)
  also have "\<dots> \<le> activeCount ds" by (rule activeCount_map_le) (rule still)
  finally show ?thesis using d assms(2) by (simp add: queue_ok_def)
qed

lemma quiet_throw: "quiet (downloads s) (downloads (executeDownload_throw c mv err s))"
  by (auto simp: executeDownload_throw_def executeDownload_finally_def executeDownload_catch_def
        intro!: quiet_map split: if_splits)

lemma quiet_cont: "quiet (downloads s) (downloads (executeDownload_cont a out c x s))"
  by (cases a; cases out)
     (auto simp: quiet_throw quiet_refl Let_def publish_def executeDownload_finally_def
        intro!: quiet_map split: if_splits)

lemma quiet_resume: "quiet (downloads s) (downloads (resume t k out s))"
proof (cases k)
  case (Transfer x)
  then show ?thesis by (simp add: executeDownload_resume_def quiet_cont quiet_refl)
next
  case (DeleteVideoPending i rm)
  then show ?thesis by (cases out) (simp_all add: deleteDownload_after_def quiet_refl quiet_filter)
next
  case (DeleteEstimatePending i rm)
  then show ?thesis by (cases out) (simp_all add: deleteDownload_after_def quiet_refl quiet_filter)
next
  case (ClearVideoPending ds)
  then show ?thesis by (cases out; cases ds) (simp_all add: quiet_refl)
next
  case ClearEstimatePending
  then show ?thesis by (cases out) (simp_all add: quiet_refl quiet_filter)
qed

lemma quiet_pauseDownload: "quiet (downloads s) (downloads (pauseDownload i s))"
  by (auto simp: pauseDownload_def intro!: quiet_map split: if_splits)

lemma absent_quiet:
  "quiet ds ds' \<Longrightarrow> i \<notin> movieId ` set ds \<Longrightarrow> i \<notin> movieId ` set ds'"
  using quiet_ids [of ds ds'] by auto

subsection \<open>The round trip through localStorage\<close>

lemma status_of_string_inverse [simp]: "status_of_string (status_string st) = Some st"
  by (cases st) (simp_all add: status_of_string_def)

lemma item_of_json_inverse [simp]: "item_of_json (stringify_item d) = Some d"
  by (cases "speed d") (simp_all add: item_of_json_def stringify_item_def)

lemma items_of_json_inverse [simp]: "items_of_json (map stringify_item ds) = Some ds"
  by (induction ds) simp_all

lemma load_persist [simp]: "load (Some (persist ds)) = ds"
  by (simp add: load_def persist_def)

subsection \<open>The queue processor after every handler\<close>

text \<open>
  The source runs the queue processor after the renders in which the collection changed, the
  transition system after every handler. The two agree: the queue processor changes nothing
  when it runs a second time, so every state after a step is settled, and on a settled state it
  changes nothing after a handler that left the collection and the catalogue as they were.
\<close>

lemma queue_processor_cases:
  "queue_processor snapshot s = s
   \<or> (\<exists>q mv. q \<in> set snapshot \<and> id_m mv = movieId q \<and> queue_processor snapshot s = executeDownload mv s)"
proof (cases "find (\<lambda>d. status d = Queued) snapshot")
  case None
  then show ?thesis by (simp add: queue_processor_def)
next
  case (Some q)
  show ?thesis
  proof (cases "find (\<lambda>m. id_m m = movieId q) (movies s)")
    case None
    with Some show ?thesis by (simp add: queue_processor_def)
  next
    case (Some mv)
    then have "id_m mv = movieId q" by (rule find_movie)
    moreover have "q \<in> set snapshot" using \<open>find (\<lambda>d. status d = Queued) snapshot = Some q\<close> find_status by blast
    ultimately show ?thesis using Some \<open>find (\<lambda>d. status d = Queued) snapshot = Some q\<close>
      by (auto simp: queue_processor_def)
  qed
qed

lemma queue_processor_settles:
  "queue_processor (downloads (queue_processor (downloads s) s)) (queue_processor (downloads s) s)
     = queue_processor (downloads s) s"
proof -
  consider "queue_processor (downloads s) s = s"
    | q mv where "q \<in> set (downloads s)" "id_m mv = movieId q"
        "queue_processor (downloads s) s = executeDownload mv s"
    using queue_processor_cases [of "downloads s" s] by blast
  then show ?thesis
  proof cases
    case 1
    then show ?thesis by simp
  next
    case 2
    let ?p = "\<lambda>d. if movieId d = id_m mv then d\<lparr>status := Downloading\<rparr> else d"
    have "?p q \<in> set (map ?p (downloads s))" using 2(1) by (simp del: map_eq_conv)
    moreover have "status (?p q) = Downloading" using 2(2) by simp
    ultimately have "filter (\<lambda>d. status d = Downloading) (map ?p (downloads s)) \<noteq> []"
      by (simp only: filter_empty_conv) blast
    then have "filter (\<lambda>d. status d = Downloading) (downloads (executeDownload mv s)) \<noteq> []" by simp
    then show ?thesis unfolding 2(3) by (simp only: queue_processor_def length_0_conv if_False)
  qed
qed

lemma step_settled: "queue_processor (downloads (step e s)) (step e s) = step e s"
  by (simp only: step_def Let_def queue_processor_settles)

lemma queue_processor_idle:
  assumes "queue_processor (downloads s) s = s" and "downloads s' = downloads s" and "movies s' = movies s"
  shows "queue_processor (downloads s') s' = s'"
proof -
  have same: "\<And>mv. executeDownload mv s \<noteq> s"
  proof
    fix mv assume "executeDownload mv s = s"
    then have "next_task (executeDownload mv s) = next_task s" by simp
    then show False by (simp add: executeDownload_def Let_def spawn_def setDownloads_def)
  qed
  show ?thesis
    using assms same
    by (auto simp: queue_processor_def split: option.splits if_splits)
qed

subsection \<open>Evaluation of the concrete runs\<close>

lemmas eval_defs = initial_def load_def step_def handle_def requestDownload_def
        requestDownload_admit_def newItem_def executeDownload_def spawn_def setDownloads_def suspend_def
        queue_processor_def executeDownload_resume_def movie_a_def movie_b_def movie_c_def item_a_def transfer_a_def Let_def
        saveVideo_resolved_def executeDownload_finally_def finish_def pauseDownload_def abort_if_running_def abort_def
        executeDownload_throw_def executeDownload_catch_def deleteDownload_def

lemmas task_defs = clearCompleted_def deleteVideo_resolved_def deleteDownload_after_def

lemma downloading_a_eq:
  "downloading_a = \<lparr>downloads = [item_a Downloading], movies = [movie_a, movie_b, movie_c],
       activeDownloads = [''a'' \<mapsto> 0], tasks = [0 \<mapsto> Transfer transfer_a], next_task = 1,
       videos = Map.empty\<rparr>"
  by (simp add: downloading_a_def initial_def load_def step_def handle_def requestDownload_def
        requestDownload_admit_def newItem_def executeDownload_def spawn_def setDownloads_def suspend_def
        queue_processor_def executeDownload_resume_def movie_a_def item_a_def transfer_a_def Let_def
        eval_nat_numeral)

lemma completed_a_eq:
  "completed_a = \<lparr>downloads = [item_a Downloading\<lparr>status := Completed, progress := 100, speed := Some 0\<rparr>],
       movies = [movie_a, movie_b, movie_c],
       activeDownloads = Map.empty, tasks = Map.empty, next_task = 1,
       videos = [''a'' \<mapsto> [1, 2, 3, 4]]\<rparr>"
  by (simp add: completed_a_def downloading_a_eq step_def handle_def executeDownload_resume_def
        suspend_def saveVideo_resolved_def executeDownload_finally_def finish_def setDownloads_def
        queue_processor_def transfer_a_def item_a_def movie_a_def)

lemma paused_a_eq:
  "paused_a = \<lparr>downloads = [item_a Paused], movies = [movie_a, movie_b, movie_c],
       activeDownloads = Map.empty, tasks = Map.empty, next_task = 1, videos = Map.empty\<rparr>"
  by (simp add: paused_a_def downloading_a_eq eval_defs)

lemma failed_a_eq:
  "failed_a = \<lparr>downloads = [item_a Failed], movies = [movie_a, movie_b, movie_c],
       activeDownloads = Map.empty, tasks = Map.empty, next_task = 1, videos = Map.empty\<rparr>"
  by (simp add: failed_a_def downloading_a_eq eval_defs)

lemma opened_a_eq:
  "opened_a = \<lparr>downloads = [\<lparr>movieId = ''a'', progress = 0, status = Downloading, expiry = 172800000,
                               totalSizeMB = 1 / 131072, downloadedSizeMB = 0, speed = Some 0\<rparr>],
       movies = [movie_a, movie_b, movie_c],
       activeDownloads = [''a'' \<mapsto> 0],
       tasks = [0 \<mapsto> Transfer \<lparr>movie = movie_a, aborted = False, awaiting = AwaitRead, totalLength = 8,
                                  chunks = [], receivedLength = 0, lastTime = 10, lastReceived = 0\<rparr>],
       next_task = 1, videos = Map.empty\<rparr>"
  by (simp add: opened_a_def eval_defs)

lemma sampled_a_eq:
  "sampled_a = \<lparr>downloads = [\<lparr>movieId = ''a'', progress = 50, status = Downloading, expiry = 172800000,
                                totalSizeMB = 1 / 131072, downloadedSizeMB = 1 / 262144,
                                speed = Some (1 / 262144)\<rparr>],
       movies = [movie_a, movie_b, movie_c],
       activeDownloads = [''a'' \<mapsto> 0],
       tasks = [0 \<mapsto> Transfer \<lparr>movie = movie_a, aborted = False, awaiting = AwaitRead, totalLength = 8,
                                  chunks = [[1, 2, 3, 4]], receivedLength = 4, lastTime = 1010,
                                  lastReceived = 4\<rparr>],
       next_task = 1, videos = Map.empty\<rparr>"
  by (simp add: sampled_a_def opened_a_eq eval_defs publish_def eval_nat_numeral)

lemma completed_ab_eq:
  "completed_ab = \<lparr>downloads = [item_a Completed\<lparr>progress := 100\<rparr>,
                                 \<lparr>movieId = ''b'', progress = 100, status = Completed, expiry = 172800001,
                                  totalSizeMB = 1 / 524288, downloadedSizeMB = 0, speed = Some 0\<rparr>],
       movies = [movie_a, movie_b, movie_c],
       activeDownloads = Map.empty, tasks = Map.empty, next_task = 2,
       videos = [''a'' \<mapsto> [1, 2, 3, 4], ''b'' \<mapsto> [9, 9]]\<rparr>"
  by (simp add: completed_ab_def eval_defs eval_nat_numeral)

lemma requested_a_eq:
  "requested_a = \<lparr>downloads = [newItem movie_a 0 0], movies = [movie_a, movie_b, movie_c],
       activeDownloads = [''a'' \<mapsto> 0],
       tasks = [0 \<mapsto> Transfer \<lparr>movie = movie_a, aborted = False, awaiting = AwaitFetch, totalLength = 0,
                                  chunks = [], receivedLength = 0, lastTime = 0, lastReceived = 0\<rparr>],
       next_task = 1, videos = Map.empty\<rparr>"
  by (simp add: requested_a_def eval_defs)

lemma stuck_zb_eq:
  "stuck_zb = \<lparr>downloads = [item_a Completed\<lparr>progress := 100\<rparr>, newItem movie_z 1 1, newItem movie_b 1 2],
       movies = [movie_a, movie_b, movie_c],
       activeDownloads = Map.empty, tasks = Map.empty, next_task = 1,
       videos = [''a'' \<mapsto> [1, 2, 3, 4]]\<rparr>"
  by (simp add: stuck_zb_def eval_defs movie_z_def eval_nat_numeral)

lemma freed_bc_downloads:
  "downloads freed_bc = [item_a Completed\<lparr>progress := 100\<rparr>, newItem movie_b 1 1, newItem movie_c 1 2]"
  "movies freed_bc = [movie_a, movie_b, movie_c]"
  "next_task freed_bc = 1"
  by (simp_all add: freed_bc_def queue_abc_def eval_defs)

lemma paused_b_downloads:
  "downloads paused_b = [item_a Completed\<lparr>progress := 100\<rparr>, (newItem movie_b 1 1)\<lparr>status := Paused\<rparr>,
                         (newItem movie_c 1 2)\<lparr>status := Downloading\<rparr>]"
  by (simp_all add: paused_b_def queue_abc_def eval_defs)

subsection \<open>The single slot\<close>

lemma promote_queue_ok:
  assumes "distinct (map movieId ds)" and "activeCount ds = 0"
  shows "queue_ok (map (\<lambda>d. if movieId d = i then d\<lparr>status := Downloading\<rparr> else d) ds)"
proof -
  let ?p = "\<lambda>d. if movieId d = i then d\<lparr>status := Downloading\<rparr> else d"
  have ids: "map movieId (map ?p ds) = map movieId ds" by (induction ds) simp_all
  have "activeCount (map ?p ds) \<le> 1"
    using assms
  proof (induction ds)
    case Nil
    then show ?case by (simp add: activeCount_def)
  next
    case (Cons d ds)
    show ?case
    proof (cases "movieId d = i")
      case True
      with Cons.prems have "i \<notin> set (map movieId ds)" by auto
      then have "map ?p ds = ds" by (rule promote_absent)
      with Cons.prems True show ?thesis by (simp add: activeCount_def split: if_splits)
    next
      case False
      with Cons show ?thesis by (simp add: activeCount_def split: if_splits)
    qed
  qed
  with assms(1) show ?thesis unfolding queue_ok_def ids by simp
qed

lemma admit_queue_ok:
  assumes "queue_ok (downloads s)"
  shows "queue_ok (downloads (requestDownload_admit (downloads s) mv now s))"
proof -
  let ?rest = "filter (\<lambda>d. movieId d \<noteq> id_m mv) (downloads s)"
  have rest: "queue_ok ?rest" using quiet_filter assms by (rule quiet_queue_ok)
  have fresh: "id_m mv \<notin> set (map movieId ?rest)" by auto
  show ?thesis
  proof (cases "activeCount (downloads s) = 0")
    case True
    have "activeCount ?rest \<le> activeCount (downloads s)" by (rule activeCount_filter_le)
    with True have zero: "activeCount ?rest = 0" by simp
    have "map (\<lambda>d. if movieId d = id_m mv then d\<lparr>status := Downloading\<rparr> else d) ?rest = ?rest"
      using fresh by (rule promote_absent)
    then have "downloads (requestDownload_admit (downloads s) mv now s) = ?rest @ [newItem mv 0 now]"
      using True by (simp add: requestDownload_admit_def Let_def activeCount_def newItem_def)
    moreover have "queue_ok (?rest @ [newItem mv 0 now])"
      using rest fresh zero by (simp add: queue_ok_def activeCount_def newItem_def)
    ultimately show ?thesis by simp
  next
    case False
    then have "downloads (requestDownload_admit (downloads s) mv now s)
        = ?rest @ [newItem mv (activeCount (downloads s)) now]"
      by (simp add: requestDownload_admit_def Let_def activeCount_def)
    moreover have "queue_ok (?rest @ [newItem mv (activeCount (downloads s)) now])"
      using rest fresh False by (simp add: queue_ok_def activeCount_def newItem_def)
    ultimately show ?thesis by simp
  qed
qed

lemma requestDownload_queue_ok:
  assumes "queue_ok (downloads s)"
  shows "queue_ok (downloads (requestDownload (downloads s) mv now s))"
proof -
  have "queue_ok (downloads (requestDownload_admit (downloads (deleteDownload (id_m mv) False s)) mv now
              (deleteDownload (id_m mv) False s)))"
    by (rule admit_queue_ok) (simp add: assms)
  then have "queue_ok (downloads (requestDownload_admit (downloads s) mv now
                (deleteDownload (id_m mv) False s)))"
    by simp
  with assms admit_queue_ok [OF assms] show ?thesis
    by (simp add: requestDownload_def split: option.splits)
qed

lemma queue_processor_queue_ok:
  assumes "queue_ok (downloads s)"
  shows "queue_ok (downloads (queue_processor (downloads s) s))"
  using assms promote_queue_ok [of "downloads s"]
  by (simp add: queue_processor_def activeCount_def queue_ok_def split: option.splits)

lemma handle_queue_ok:
  assumes "queue_ok (downloads s)"
  shows "queue_ok (downloads (handle e s))"
proof (cases e)
  case (RequestDownload mv now)
  then show ?thesis using requestDownload_queue_ok [OF assms] by (simp add: handle_def)
next
  case (PauseDownload i)
  then show ?thesis using assms quiet_queue_ok [OF quiet_pauseDownload assms] by (simp add: handle_def)
next
  case (DeleteDownload i)
  then show ?thesis using assms by (simp add: handle_def)
next
  case ClearCompleted
  then show ?thesis using assms by (simp add: handle_def clearCompleted_def Let_def)
next
  case (Resume t out)
  then show ?thesis using assms quiet_queue_ok [OF quiet_resume assms]
    by (simp add: handle_def split: option.splits)
next
  case Restart
  then show ?thesis using assms by (simp add: handle_def)
qed

lemma step_queue_ok: "queue_ok (downloads s) \<Longrightarrow> queue_ok (downloads (step e s))"
  by (simp add: step_def Let_def queue_processor_queue_ok handle_queue_ok)

lemma run_queue_ok: "queue_ok (downloads s) \<Longrightarrow> queue_ok (downloads (run es s))"
  by (induction es arbitrary: s) (simp_all add: step_queue_ok)

lemma initial_queue_ok: "queue_ok (downloads (initial mvs))"
  by (simp add: initial_def load_def queue_ok_def activeCount_def)

text \<open>
  C1. From the first mount of the component, after every sequence of events (requests, pauses,
  removals, clear-completed, resumptions of the transfers and of the other tasks in any
  interleaving, reloads), at most one item of the collection is downloading, both in the
  collection that the handler of a further event leaves behind and in the collection after the
  queue processor has run on it.
\<close>

theorem at_most_one_downloading:
  "length (filter (\<lambda>d. status d = Downloading) (downloads (run es (initial mvs)))) \<le> 1
   \<and> length (filter (\<lambda>d. status d = Downloading) (downloads (handle e (run es (initial mvs))))) \<le> 1"
proof -
  have ok: "queue_ok (downloads (run es (initial mvs)))"
    using initial_queue_ok by (rule run_queue_ok)
  then have "queue_ok (downloads (handle e (run es (initial mvs))))"
    by (rule handle_queue_ok)
  with ok show ?thesis by (simp add: queue_ok_def activeCount_def)
qed

subsection \<open>The end of a transfer\<close>

lemma throw_abort:
  assumes "downloads s = pre @ d # post"
    and "id_m mv \<notin> movieId ` set pre" and "id_m mv \<notin> movieId ` set post"
  shows "downloads (executeDownload_throw c mv (Thrown ''AbortError'') s) =
           pre @ (if movieId d = id_m mv \<and> status d = Downloading
                  then d\<lparr>status := Paused, speed := Some 0\<rparr> else d) # post"
  using assms(1)
  by (simp add: executeDownload_throw_def executeDownload_finally_def executeDownload_catch_def
        map_untouched [where i = "id_m mv"] assms(2,3))

lemma throw_other:
  assumes "downloads s = pre @ d # post"
    and "id_m mv \<notin> movieId ` set pre" and "id_m mv \<notin> movieId ` set post"
    and "err_name err \<noteq> ''AbortError''"
  shows "downloads (executeDownload_throw c mv err s) =
           pre @ (if movieId d = id_m mv then d\<lparr>status := Failed, speed := Some 0\<rparr> else d) # post"
  using assms(1,4)
  by (simp add: executeDownload_throw_def executeDownload_finally_def executeDownload_catch_def
        map_untouched [where i = "id_m mv"] assms(2,3))





subsection \<open>Completion of a transfer\<close>

lemma completion_from_read:
  assumes "tasks s c = Some (Transfer x)" and "awaiting x = AwaitRead" and "\<not> aborted x"
    and "downloads s = pre @ d # post" and "movieId d = id_m (movie x)"
    and "id_m (movie x) \<notin> movieId ` set pre" and "id_m (movie x) \<notin> movieId ` set post"
  shows
    "downloads (handles [Resume c Done] s) = downloads s
     \<and> videos (handles [Resume c Done] s) = videos s
     \<and> downloads (handles [Resume c Done, Resume c Resolved] s) = downloads s
     \<and> videos (handles [Resume c Done, Resume c Resolved] s) = (videos s)(movieId d \<mapsto> concat (chunks x))
     \<and> downloads (handles [Resume c Done, Resume c Resolved, Resume c Resolved] s)
          = pre @ d\<lparr>status := Completed, progress := 100, speed := Some 0\<rparr> # post
     \<and> videos (handles [Resume c Done, Resume c Resolved, Resume c Resolved] s) (movieId d)
          = Some (concat (chunks x))
     \<and> videos (handles [Resume c Done, Resume c (Rejected err)] s) = videos s
     \<and> (status d \<noteq> Completed \<longrightarrow>
          filter (\<lambda>e. status e = Completed) (downloads (handles [Resume c Done, Resume c (Rejected err)] s))
            = filter (\<lambda>e. status e = Completed) (downloads s))"
proof -
  let ?x1 = "x\<lparr>awaiting := AwaitSaveVideo\<rparr>"
  let ?x2 = "x\<lparr>awaiting := AwaitEstimate\<rparr>"
  let ?i = "id_m (movie x)"
  define s1 where "s1 = handle (Resume c Done) s"
  define s2 where "s2 = handle (Resume c Resolved) s1"
  define s3 where "s3 = handle (Resume c Resolved) s2"
  define s2' where "s2' = handle (Resume c (Rejected err)) s1"
  have s1: "s1 = suspend c (Transfer ?x1) s"
    unfolding s1_def using assms(1,2,3) by (simp add: handle_def executeDownload_resume_def)
  have s2: "s2 = suspend c (Transfer ?x2) (saveVideo_resolved ?i (concat (chunks x)) s1)"
    unfolding s2_def using s1 by (simp add: handle_def executeDownload_resume_def)
  have s3: "s3 = executeDownload_finally c (movie x)
                  (setDownloads (map (\<lambda>e. if movieId e = ?i
                      then e\<lparr>status := Completed, progress := 100, speed := Some 0\<rparr> else e)) s2)"
    unfolding s3_def using s2 by (simp add: handle_def executeDownload_resume_def)
  have s2': "s2' = executeDownload_throw c (movie x) err s1"
    unfolding s2'_def using s1 by (simp add: handle_def executeDownload_resume_def)
  have d1: "downloads s1 = downloads s" and v1: "videos s1 = videos s" by (simp_all add: s1)
  have d2: "downloads s2 = downloads s" and v2: "videos s2 = (videos s)(movieId d \<mapsto> concat (chunks x))"
    using assms(5) by (simp_all add: s2 s1)
  have d3: "downloads s3 = pre @ d\<lparr>status := Completed, progress := 100, speed := Some 0\<rparr> # post"
    using assms(4,5,6,7)
    by (simp add: s3 d2 executeDownload_finally_def map_untouched [where i = ?i])
  have v3: "videos s3 (movieId d) = Some (concat (chunks x))"
    by (simp add: s3 v2 executeDownload_finally_def)
  have v2': "videos s2' = videos s" by (simp add: s2' v1)
  have d2': "status d \<noteq> Completed \<Longrightarrow>
      filter (\<lambda>e. status e = Completed) (downloads s2') = filter (\<lambda>e. status e = Completed) (downloads s)"
  proof -
    assume nc: "status d \<noteq> Completed"
    have ds1: "downloads s1 = pre @ d # post" using d1 assms(4) by simp
    show ?thesis
    proof (cases "err_name err = ''AbortError''")
      case True
      then have "err = Thrown ''AbortError''" by (cases err) simp
      then show ?thesis
        using throw_abort [OF ds1 assms(6,7), of c] nc assms(4) by (simp add: s2')
    next
      case False
      then show ?thesis
        using throw_other [OF ds1 assms(6,7) False, of c] nc assms(4) by (simp add: s2')
    qed
  qed
  show ?thesis
    using d1 v1 d2 v2 d3 v3 v2' d2'
    by (simp add: s1_def s2_def s3_def s2'_def)
qed

lemma handles_append: "handles (es @ fs) s = handles fs (handles es s)"
  by (induction es arbitrary: s) simp_all

lemma read_run:
  assumes "tasks s c = Some (Transfer x)" and "awaiting x = AwaitRead" and "\<not> aborted x"
    and "downloads s = pre @ d # post" and "movieId d = id_m (movie x)"
    and "id_m (movie x) \<notin> movieId ` set pre" and "id_m (movie x) \<notin> movieId ` set post"
  shows "\<exists>x' d'. tasks (handles (chunk_events c cs) s) c = Some (Transfer x')
      \<and> downloads (handles (chunk_events c cs) s) = pre @ d' # post
      \<and> videos (handles (chunk_events c cs) s) = videos s
      \<and> awaiting x' = AwaitRead \<and> \<not> aborted x' \<and> movie x' = movie x
      \<and> chunks x' = chunks x @ map fst cs
      \<and> lastReceived x' = last_sample (lastTime x) (receivedLength x) (lastReceived x) cs
      \<and> movieId d' = movieId d \<and> status d' = status d
      \<and> (downloadedSizeMB d * (1024 * 1024) = of_nat (lastReceived x)
           \<longrightarrow> downloadedSizeMB d' * (1024 * 1024) = of_nat (lastReceived x'))"
  using assms
proof (induction cs arbitrary: s x d)
  case Nil
  then show ?case by (simp add: chunk_events_def)
next
  case (Cons a cs)
  obtain v now where a: "a = (v, now)" by (cases a)
  let ?i = "id_m (movie x)"
  let ?r = "receivedLength x + length v"
  define s1 where "s1 = handle (Resume c (Chunk v now)) s"
  have run: "handles (chunk_events c ((v, now) # cs)) s = handles (chunk_events c cs) s1"
    by (simp add: chunk_events_def s1_def)
  show ?case
  proof (cases "now - lastTime x > 800")
    case True
    let ?x1 = "x\<lparr>chunks := chunks x @ [v], receivedLength := ?r, lastTime := now, lastReceived := ?r\<rparr>"
    let ?d1 = "publish ?i (totalLength x) ?r (lastReceived x) (lastTime x) now d"
    have s1: "s1 = suspend c (Transfer ?x1)
                (setDownloads (map (publish ?i (totalLength x) ?r (lastReceived x) (lastTime x) now)) s)"
      unfolding s1_def using Cons.prems(1-3) True
      by (simp add: handle_def executeDownload_resume_def Let_def)
    have pub: "\<And>e. movieId e \<noteq> ?i \<Longrightarrow> publish ?i (totalLength x) ?r (lastReceived x) (lastTime x) now e = e"
      by (simp add: publish_def Let_def)
    have t1: "tasks s1 c = Some (Transfer ?x1)" by (simp add: s1)
    have d1: "downloads s1 = pre @ ?d1 # post"
      using Cons.prems(4,6,7) pub by (simp add: s1 map_untouched [where i = ?i])
    have v1: "videos s1 = videos s" by (simp add: s1)
    have k1: "movieId ?d1 = id_m (movie ?x1)" "status ?d1 = status d" "movieId ?d1 = movieId d"
      "downloadedSizeMB ?d1 * (1024 * 1024) = of_nat (lastReceived ?x1)"
      using Cons.prems(5) by (simp_all add: publish_def Let_def)
    from Cons.IH [OF t1 _ _ d1 k1(1)] Cons.prems(2,3,6,7)
    obtain x' d' where ih: "tasks (handles (chunk_events c cs) s1) c = Some (Transfer x')"
      "downloads (handles (chunk_events c cs) s1) = pre @ d' # post"
      "videos (handles (chunk_events c cs) s1) = videos s1"
      "awaiting x' = AwaitRead" "\<not> aborted x'" "movie x' = movie ?x1"
      "chunks x' = chunks ?x1 @ map fst cs"
      "lastReceived x' = last_sample (lastTime ?x1) (receivedLength ?x1) (lastReceived ?x1) cs"
      "movieId d' = movieId ?d1" "status d' = status ?d1"
      "downloadedSizeMB ?d1 * (1024 * 1024) = of_nat (lastReceived ?x1)
         \<longrightarrow> downloadedSizeMB d' * (1024 * 1024) = of_nat (lastReceived x')"
      by auto
    have "downloadedSizeMB d' * (1024 * 1024) = of_nat (lastReceived x')" using ih(11) k1(4) by blast
    with ih k1 v1 True show ?thesis
      unfolding a run by (intro exI [of _ x'] exI [of _ d']) simp
  next
    case False
    let ?x1 = "x\<lparr>chunks := chunks x @ [v], receivedLength := ?r\<rparr>"
    have s1: "s1 = suspend c (Transfer ?x1) s"
      unfolding s1_def using Cons.prems(1-3) False
      by (simp add: handle_def executeDownload_resume_def Let_def)
    have t1: "tasks s1 c = Some (Transfer ?x1)" by (simp add: s1)
    have d1: "downloads s1 = pre @ d # post" using Cons.prems(4) by (simp add: s1)
    have v1: "videos s1 = videos s" by (simp add: s1)
    have k1: "movieId d = id_m (movie ?x1)" using Cons.prems(5) by simp
    from Cons.IH [OF t1 _ _ d1 k1] Cons.prems(2,3,6,7)
    obtain x' d' where ih: "tasks (handles (chunk_events c cs) s1) c = Some (Transfer x')"
      "downloads (handles (chunk_events c cs) s1) = pre @ d' # post"
      "videos (handles (chunk_events c cs) s1) = videos s1"
      "awaiting x' = AwaitRead" "\<not> aborted x'" "movie x' = movie ?x1"
      "chunks x' = chunks ?x1 @ map fst cs"
      "lastReceived x' = last_sample (lastTime ?x1) (receivedLength ?x1) (lastReceived ?x1) cs"
      "movieId d' = movieId d" "status d' = status d"
      "downloadedSizeMB d * (1024 * 1024) = of_nat (lastReceived ?x1)
         \<longrightarrow> downloadedSizeMB d' * (1024 * 1024) = of_nat (lastReceived x')"
      by auto
    with v1 False show ?thesis
      unfolding a run by (intro exI [of _ x'] exI [of _ d']) simp
  qed
qed


text \<open>
  C3 (amended). Take a transfer that waits for the response of \<^verbatim>\<open>fetch\<close>, was not cancelled,
  and whose item is the only entry of its movie; let the response have a body, let the reader
  deliver any list of chunks at any times and then the end of the stream. Up to that point the
  blob store is unchanged. When the store confirms the write, the blob under the key of the
  item is the concatenation of the delivered chunks in their order, and the item still has
  the status it had; only the step after that makes the item completed with progress 100 and
  speed 0, and it changes no other field. The downloaded-size field of an item that started at 0
  then holds, in units of 1024 * 1024 bytes, the number of bytes received when the read loop
  last published a sample (0 when it published none), whatever the size of the blob. When the
  write is rejected, the store is unchanged and no entry becomes completed.
\<close>

theorem completion_after_confirmed_write:
  assumes "tasks s c = Some (Transfer x)" and "awaiting x = AwaitFetch" and "\<not> aborted x"
    and "downloads s = pre @ d # post" and "movieId d = id_m (movie x)"
    and "id_m (movie x) \<notin> movieId ` set pre" and "id_m (movie x) \<notin> movieId ` set post"
  shows
    "\<exists>d'. videos (handles (Resume c (Response True len t0) # chunk_events c cs @ [Resume c Done]) s) = videos s
       \<and> downloads (handles (Resume c (Response True len t0) # chunk_events c cs
                               @ [Resume c Done, Resume c Resolved]) s) = pre @ d' # post
       \<and> movieId d' = movieId d \<and> status d' = status d
       \<and> (downloadedSizeMB d = 0 \<longrightarrow> downloadedSizeMB d' * (1024 * 1024) = of_nat (last_sample t0 0 0 cs))
       \<and> videos (handles (Resume c (Response True len t0) # chunk_events c cs
                            @ [Resume c Done, Resume c Resolved]) s)
            = (videos s)(movieId d \<mapsto> concat (map fst cs))
       \<and> downloads (handles (Resume c (Response True len t0) # chunk_events c cs
                               @ [Resume c Done, Resume c Resolved, Resume c Resolved]) s)
            = pre @ d'\<lparr>status := Completed, progress := 100, speed := Some 0\<rparr> # post
       \<and> videos (handles (Resume c (Response True len t0) # chunk_events c cs
                            @ [Resume c Done, Resume c Resolved, Resume c Resolved]) s) (movieId d)
            = Some (concat (map fst cs))
       \<and> videos (handles (Resume c (Response True len t0) # chunk_events c cs
                            @ [Resume c Done, Resume c (Rejected err)]) s) = videos s
       \<and> (status d \<noteq> Completed \<longrightarrow>
            filter (\<lambda>e. status e = Completed)
              (downloads (handles (Resume c (Response True len t0) # chunk_events c cs
                                    @ [Resume c Done, Resume c (Rejected err)]) s))
              = filter (\<lambda>e. status e = Completed) (downloads s))"
proof -
  let ?i = "id_m (movie x)"
  define total where "total = (case len of Some n \<Rightarrow> n | None \<Rightarrow> 0)"
  define x0 where "x0 = x\<lparr>awaiting := AwaitRead, totalLength := total, chunks := [],
                           receivedLength := 0, lastTime := t0, lastReceived := 0\<rparr>"
  define d0 where "d0 = (if total > 0 then d\<lparr>totalSizeMB := of_int total / (1024 * 1024)\<rparr> else d)"
  define s0 where "s0 = handle (Resume c (Response True len t0)) s"
  define sr where "sr = handles (chunk_events c cs) s0"
  have whole: "\<And>fs. handles (Resume c (Response True len t0) # chunk_events c cs @ fs) s = handles fs sr"
    by (simp add: handles_append s0_def sr_def)
  have t0: "tasks s0 c = Some (Transfer x0)"
    unfolding s0_def x0_def total_def using assms(1-3)
    by (simp add: handle_def executeDownload_resume_def Let_def)
  have d0: "downloads s0 = pre @ d0 # post"
    unfolding s0_def d0_def total_def using assms(1-7)
    by (simp add: handle_def executeDownload_resume_def Let_def map_untouched [where i = ?i])
  have v0: "videos s0 = videos s"
    unfolding s0_def using assms(1-3) by (simp add: handle_def executeDownload_resume_def Let_def)
  have x0: "awaiting x0 = AwaitRead" "\<not> aborted x0" "movie x0 = movie x" "chunks x0 = []"
    "receivedLength x0 = 0" "lastTime x0 = t0" "lastReceived x0 = 0"
    using assms(3) by (simp_all add: x0_def)
  have k0: "movieId d0 = id_m (movie x0)" "status d0 = status d" "movieId d0 = movieId d"
    "downloadedSizeMB d0 = downloadedSizeMB d"
    using assms(5) by (simp_all add: d0_def x0_def)
  have u0: "id_m (movie x0) \<notin> movieId ` set pre" "id_m (movie x0) \<notin> movieId ` set post"
    using assms(6,7) x0(3) by simp_all
  have "\<exists>x' d'. tasks sr c = Some (Transfer x')
      \<and> downloads sr = pre @ d' # post
      \<and> videos sr = videos s0
      \<and> awaiting x' = AwaitRead \<and> \<not> aborted x' \<and> movie x' = movie x0
      \<and> chunks x' = chunks x0 @ map fst cs
      \<and> lastReceived x' = last_sample (lastTime x0) (receivedLength x0) (lastReceived x0) cs
      \<and> movieId d' = movieId d0 \<and> status d' = status d0
      \<and> (downloadedSizeMB d0 * (1024 * 1024) = of_nat (lastReceived x0)
           \<longrightarrow> downloadedSizeMB d' * (1024 * 1024) = of_nat (lastReceived x'))"
    unfolding sr_def by (rule read_run [OF t0 x0(1) x0(2) d0 k0(1) u0])
  then obtain x' d' where r: "tasks sr c = Some (Transfer x')" "downloads sr = pre @ d' # post"
    "videos sr = videos s0" "awaiting x' = AwaitRead" "\<not> aborted x'" "movie x' = movie x0"
    "chunks x' = chunks x0 @ map fst cs"
    "lastReceived x' = last_sample (lastTime x0) (receivedLength x0) (lastReceived x0) cs"
    "movieId d' = movieId d0" "status d' = status d0"
    "downloadedSizeMB d0 * (1024 * 1024) = of_nat (lastReceived x0)
       \<longrightarrow> downloadedSizeMB d' * (1024 * 1024) = of_nat (lastReceived x')"
    by blast
  have mx: "movie x' = movie x" and cx: "chunks x' = map fst cs" using r(6,7) x0 by simp_all
  have key: "movieId d' = id_m (movie x')" using r(9) k0(3) assms(5) mx by simp
  have uniq: "id_m (movie x') \<notin> movieId ` set pre" "id_m (movie x') \<notin> movieId ` set post"
    using assms(6,7) mx by simp_all
  note fin = completion_from_read [OF r(1) r(4) r(5) r(2) key uniq, of err]
  have same: "movieId d' = movieId d" "status d' = status d" using r(9,10) k0 by simp_all
  have sample: "downloadedSizeMB d = 0 \<Longrightarrow> downloadedSizeMB d' * (1024 * 1024) = of_nat (last_sample t0 0 0 cs)"
    using r(8,11) x0 k0(4) by simp
  have stay: "status d \<noteq> Completed \<Longrightarrow>
      filter (\<lambda>e. status e = Completed) (downloads sr) = filter (\<lambda>e. status e = Completed) (downloads s)"
    using r(2) same(2) assms(4) by simp
  show ?thesis
    unfolding whole
    using fin r(2,3) v0 same sample stay cx
    by (intro exI [of _ d']) (simp add: same(1))
qed

theorem completion_after_confirmed_write_witness:
  "tasks requested_a 0 = Some (Transfer \<lparr>movie = movie_a, aborted = False, awaiting = AwaitFetch,
                                         totalLength = 0, chunks = [], receivedLength = 0, lastTime = 0,
                                         lastReceived = 0\<rparr>)
   \<and> downloads requested_a = [] @ newItem movie_a 0 0 # []
   \<and> status (newItem movie_a 0 0) = Downloading \<and> downloadedSizeMB (newItem movie_a 0 0) = 0
   \<and> last_sample 10 0 0 [([1, 2, 3, 4], 1010), ([5, 6, 7, 8], 1020)] = 4
   \<and> map status (downloads (handles (Resume 0 (Response True (Some 8) 10)
          # chunk_events 0 [([1, 2, 3, 4], 1010), ([5, 6, 7, 8], 1020)]
          @ [Resume 0 Done, Resume 0 Resolved]) requested_a)) = [Downloading]
   \<and> videos (handles (Resume 0 (Response True (Some 8) 10)
          # chunk_events 0 [([1, 2, 3, 4], 1010), ([5, 6, 7, 8], 1020)]
          @ [Resume 0 Done, Resume 0 Resolved]) requested_a) ''a'' = Some [1, 2, 3, 4, 5, 6, 7, 8]
   \<and> downloads (handles (Resume 0 (Response True (Some 8) 10)
          # chunk_events 0 [([1, 2, 3, 4], 1010), ([5, 6, 7, 8], 1020)]
          @ [Resume 0 Done, Resume 0 Resolved, Resume 0 Resolved]) requested_a)
       = [\<lparr>movieId = ''a'', progress = 100, status = Completed, expiry = 172800000,
           totalSizeMB = 1 / 131072, downloadedSizeMB = 1 / 262144, speed = Some 0\<rparr>]
   \<and> videos (handles (Resume 0 (Response True (Some 8) 10)
          # chunk_events 0 [([1, 2, 3, 4], 1010), ([5, 6, 7, 8], 1020)]
          @ [Resume 0 Done, Resume 0 (Rejected (Thrown ''QuotaExceededError''))]) requested_a) ''a'' = None
   \<and> map status (downloads (handles (Resume 0 (Response True (Some 8) 10)
          # chunk_events 0 [([1, 2, 3, 4], 1010), ([5, 6, 7, 8], 1020)]
          @ [Resume 0 Done, Resume 0 (Rejected (Thrown ''QuotaExceededError''))]) requested_a)) = [Failed]"
  using completion_after_confirmed_write [of requested_a 0
          "\<lparr>movie = movie_a, aborted = False, awaiting = AwaitFetch, totalLength = 0, chunks = [],
            receivedLength = 0, lastTime = 0, lastReceived = 0\<rparr>"
          "[]" "newItem movie_a 0 0" "[]" "Some 8" 10 "[([1, 2, 3, 4], 1010), ([5, 6, 7, 8], 1020)]"
          "Thrown ''QuotaExceededError''"]
  by (simp add: requested_a_eq chunk_events_def eval_defs newItem_def publish_def)

text \<open>
  C3 as stated fails at a transfer that ends before the first sample is published: the item is
  completed with progress 100, the stored blob has 4 bytes, and the downloaded-size field is 0.
\<close>

theorem stored_size_differs_from_downloaded_size:
  "map status (downloads completed_a) = [Completed]
   \<and> map progress (downloads completed_a) = [100]
   \<and> videos completed_a ''a'' = Some [1, 2, 3, 4]
   \<and> map downloadedSizeMB (downloads completed_a) = [0]
   \<and> downloadedSizeMB (hd (downloads completed_a)) * (1024 * 1024) \<noteq> of_nat (length [1, 2, 3, 4 :: byte])
   \<and> downloadedSizeMB (hd (downloads completed_a)) \<noteq> of_nat (length [1, 2, 3, 4 :: byte])"
  by (simp add: completed_a_eq item_a_def)

subsection \<open>Admission in request order\<close>

lemma admit_downloads:
  assumes "downloads s' = downloads s"
  shows "downloads (requestDownload_admit (downloads s) mv now s')
           = filter (\<lambda>d. movieId d \<noteq> id_m mv) (downloads s) @ [newItem mv (activeCount (downloads s)) now]"
proof (cases "activeCount (downloads s) = 0")
  case True
  have "map (\<lambda>d. if movieId d = id_m mv then d\<lparr>status := Downloading\<rparr> else d)
          (filter (\<lambda>d. movieId d \<noteq> id_m mv) (downloads s)) = filter (\<lambda>d. movieId d \<noteq> id_m mv) (downloads s)"
    by (rule promote_absent) auto
  with True assms show ?thesis
    by (simp add: requestDownload_admit_def Let_def activeCount_def newItem_def)
next
  case False
  with assms show ?thesis by (simp add: requestDownload_admit_def Let_def activeCount_def)
qed

lemma admission_in_order:
  "(downloads s = pre @ q # post \<and> status q = Queued \<and> (\<forall>d\<in>set pre. status d \<noteq> Queued)
      \<and> (\<forall>d\<in>set (downloads s). status d \<noteq> Downloading)
      \<and> movieId q \<notin> movieId ` set pre \<and> movieId q \<notin> movieId ` set post
      \<and> find (\<lambda>m. id_m m = movieId q) (movies s) = Some mv
    \<longrightarrow> downloads (queue_processor (downloads s) s) = pre @ q\<lparr>status := Downloading\<rparr> # post
        \<and> tasks (queue_processor (downloads s) s) (next_task s)
            = Some (Transfer \<lparr>movie = mv, aborted = False, awaiting = AwaitFetch, totalLength = 0,
                               chunks = [], receivedLength = 0, lastTime = 0, lastReceived = 0\<rparr>)
        \<and> activeDownloads (queue_processor (downloads s) s) (movieId q) = Some (next_task s))
   \<and> ((\<forall>d\<in>set (downloads s). movieId d = id_m mv' \<longrightarrow> status d = Paused)
    \<longrightarrow> downloads (requestDownload (downloads s) mv' now s)
          = filter (\<lambda>d. movieId d \<noteq> id_m mv') (downloads s) @ [newItem mv' (activeCount (downloads s)) now]
        \<and> status (newItem mv' (activeCount (downloads s)) now)
          = (if activeCount (downloads s) = 0 then Downloading else Queued)
        \<and> downloads (requestDownload (downloads s) mv' now s)
          = downloads (requestDownload (filter (\<lambda>d. movieId d \<noteq> id_m mv') (downloads s)) mv' now
                         (setDownloads (filter (\<lambda>d. movieId d \<noteq> id_m mv')) s))
        \<and> (activeCount (downloads s) = 0 \<longrightarrow>
             activeDownloads (requestDownload (downloads s) mv' now s) (id_m mv')
               = Some (next_task (requestDownload (downloads s) mv' now s) - 1)
             \<and> tasks (requestDownload (downloads s) mv' now s)
                  (next_task (requestDownload (downloads s) mv' now s) - 1)
               = Some (Transfer \<lparr>movie = mv', aborted = False, awaiting = AwaitFetch, totalLength = 0,
                                  chunks = [], receivedLength = 0, lastTime = 0, lastReceived = 0\<rparr>)))"
proof (intro conjI impI)
  assume h: "downloads s = pre @ q # post \<and> status q = Queued \<and> (\<forall>d\<in>set pre. status d \<noteq> Queued)
      \<and> (\<forall>d\<in>set (downloads s). status d \<noteq> Downloading)
      \<and> movieId q \<notin> movieId ` set pre \<and> movieId q \<notin> movieId ` set post
      \<and> find (\<lambda>m. id_m m = movieId q) (movies s) = Some mv"
  then have ds: "downloads s = pre @ q # post" and q: "status q = Queued"
    and pre: "\<forall>d\<in>set pre. \<not> status d = Queued"
    and idle: "\<forall>d\<in>set (downloads s). status d \<noteq> Downloading"
    and np: "movieId q \<notin> movieId ` set pre" and npo: "movieId q \<notin> movieId ` set post"
    and mv: "find (\<lambda>m. id_m m = movieId q) (movies s) = Some mv"
    by simp_all
  have none: "filter (\<lambda>d. status d = Downloading) (downloads s) = []"
    using idle by (simp add: filter_empty_conv)
  have first: "find (\<lambda>d. status d = Queued) (downloads s) = Some q"
    unfolding ds using pre q by (rule find_past)
  have key: "id_m mv = movieId q" using mv by (rule find_movie)
  have qp: "queue_processor (downloads s) s = executeDownload mv s"
    by (simp add: queue_processor_def none first mv)
  show "downloads (queue_processor (downloads s) s) = pre @ q\<lparr>status := Downloading\<rparr> # post"
    unfolding qp using np npo by (simp add: ds key map_untouched [where i = "movieId q"])
  show "tasks (queue_processor (downloads s) s) (next_task s)
            = Some (Transfer \<lparr>movie = mv, aborted = False, awaiting = AwaitFetch, totalLength = 0,
                               chunks = [], receivedLength = 0, lastTime = 0, lastReceived = 0\<rparr>)"
    unfolding qp by (simp add: executeDownload_def Let_def spawn_def setDownloads_def)
  show "activeDownloads (queue_processor (downloads s) s) (movieId q) = Some (next_task s)"
    unfolding qp by (simp add: executeDownload_def Let_def spawn_def setDownloads_def key)
next
  assume paused: "\<forall>d\<in>set (downloads s). movieId d = id_m mv' \<longrightarrow> status d = Paused"
  let ?rest = "filter (\<lambda>d. movieId d \<noteq> id_m mv') (downloads s)"
  have req: "downloads (requestDownload (downloads s) mv' now s)
          = ?rest @ [newItem mv' (activeCount (downloads s)) now]"
  proof (cases "find (\<lambda>d. movieId d = id_m mv') (downloads s)")
    case None
    then show ?thesis by (simp add: requestDownload_def admit_downloads)
  next
    case (Some e)
    with paused find_key [OF Some] have "status e = Paused" by blast
    with Some show ?thesis by (simp add: requestDownload_def admit_downloads)
  qed
  then show "downloads (requestDownload (downloads s) mv' now s)
          = ?rest @ [newItem mv' (activeCount (downloads s)) now]" .
  show "status (newItem mv' (activeCount (downloads s)) now)
          = (if activeCount (downloads s) = 0 then Downloading else Queued)"
    by (simp add: newItem_def)
  have same: "activeCount ?rest = activeCount (downloads s)"
  proof -
    have "filter (\<lambda>d. status d = Downloading) ?rest = filter (\<lambda>d. status d = Downloading) (downloads s)"
      using paused by (auto intro!: filter_cong)
    then show ?thesis by (simp add: activeCount_def)
  qed
  have absent: "find (\<lambda>d. movieId d = id_m mv') ?rest = None"
    by (simp add: find_None_iff)
  define s0 where "s0 = setDownloads (filter (\<lambda>d. movieId d \<noteq> id_m mv')) s"
  have d0: "downloads s0 = ?rest" by (simp add: s0_def)
  have "requestDownload (downloads s0) mv' now s0 = requestDownload_admit (downloads s0) mv' now s0"
    using absent by (simp only: d0 requestDownload_def option.case)
  then have "downloads (requestDownload (downloads s0) mv' now s0)
      = filter (\<lambda>d. movieId d \<noteq> id_m mv') (downloads s0) @ [newItem mv' (activeCount (downloads s0)) now]"
    by (simp only: admit_downloads [OF refl])
  also have "\<dots> = ?rest @ [newItem mv' (activeCount (downloads s)) now]"
    unfolding d0 using same by simp
  finally show "downloads (requestDownload (downloads s) mv' now s)
          = downloads (requestDownload ?rest mv' now (setDownloads (filter (\<lambda>d. movieId d \<noteq> id_m mv')) s))"
    using req d0 by (simp add: s0_def)
  {
    assume free: "activeCount (downloads s) = 0"
    have adm: "\<And>s'. activeDownloads (requestDownload_admit (downloads s) mv' now s') (id_m mv')
                   = Some (next_task (requestDownload_admit (downloads s) mv' now s') - 1)
                 \<and> tasks (requestDownload_admit (downloads s) mv' now s')
                      (next_task (requestDownload_admit (downloads s) mv' now s') - 1)
                   = Some (Transfer \<lparr>movie = mv', aborted = False, awaiting = AwaitFetch, totalLength = 0,
                                  chunks = [], receivedLength = 0, lastTime = 0, lastReceived = 0\<rparr>)"
      using free
      by (simp add: requestDownload_admit_def activeCount_def Let_def executeDownload_def spawn_def
            setDownloads_def)
    have "requestDownload (downloads s) mv' now s = requestDownload_admit (downloads s) mv' now s
        \<or> requestDownload (downloads s) mv' now s
            = requestDownload_admit (downloads s) mv' now (deleteDownload (id_m mv') False s)"
    proof (cases "find (\<lambda>d. movieId d = id_m mv') (downloads s)")
      case None
      then show ?thesis by (simp add: requestDownload_def)
    next
      case (Some e)
      with paused find_key [OF Some] have "status e = Paused" by blast
      with Some show ?thesis by (simp add: requestDownload_def)
    qed
    then show "activeDownloads (requestDownload (downloads s) mv' now s) (id_m mv')
               = Some (next_task (requestDownload (downloads s) mv' now s) - 1)"
      and "tasks (requestDownload (downloads s) mv' now s)
                  (next_task (requestDownload (downloads s) mv' now s) - 1)
               = Some (Transfer \<lparr>movie = mv', aborted = False, awaiting = AwaitFetch, totalLength = 0,
                                  chunks = [], receivedLength = 0, lastTime = 0, lastReceived = 0\<rparr>)"
      using adm by auto
  }
qed

lemma delete_without_metadata:
  assumes "tasks s t = Some (DeleteVideoPending i False)"
  shows "downloads (handles [Resume t Resolved, Resume t Resolved] s) = downloads s
     \<and> videos (handles [Resume t Resolved, Resume t Resolved] s) = (videos s)(i := None)
     \<and> tasks (handles [Resume t Resolved, Resume t Resolved] s) t = None
     \<and> downloads (handles [Resume t (Rejected err)] s) = downloads s"
  using assms by (simp add: handle_def deleteDownload_after_def)

lemma rerequest_spawns_delete:
  assumes "find (\<lambda>d. movieId d = id_m mv) (downloads s) = Some e" and "status e = Paused"
  shows "tasks (requestDownload (downloads s) mv now s) (next_task s) = Some (DeleteVideoPending (id_m mv) False)"
proof -
  have r: "requestDownload (downloads s) mv now s
      = requestDownload_admit (downloads s) mv now (deleteDownload (id_m mv) False s)"
    using assms by (simp add: requestDownload_def)
  have "tasks (requestDownload_admit (downloads s) mv now (deleteDownload (id_m mv) False s)) (next_task s)
      = tasks (deleteDownload (id_m mv) False s) (next_task s)"
    by (rule admit_keeps_task) (simp add: deleteDownload_def spawn_def)
  then show ?thesis unfolding r by (simp add: deleteDownload_def spawn_def)
qed

text \<open>
  C4 as stated fails: the first transfer has completed, no item is downloading, and the earliest
  queued entry is the one of a movie that the catalogue does not hold. The queue processor
  promotes nothing, neither that entry nor the one behind it, also after a reload; and a later
  request is admitted at once, ahead of both.
\<close>

theorem queue_stuck_behind_unknown_movie:
  "map movieId (downloads stuck_zb) = [''a'', ''z'', ''b'']
   \<and> map status (downloads stuck_zb) = [Completed, Queued, Queued]
   \<and> filter (\<lambda>d. status d = Downloading) (downloads stuck_zb) = []
   \<and> find (\<lambda>d. status d = Queued) (downloads stuck_zb) = Some (newItem movie_z 1 1)
   \<and> find (\<lambda>m. id_m m = ''z'') (movies stuck_zb) = None
   \<and> queue_processor (downloads stuck_zb) stuck_zb = stuck_zb
   \<and> map status (downloads (step Restart stuck_zb)) = [Completed, Queued, Queued]
   \<and> map movieId (downloads (step (RequestDownload movie_c 50) stuck_zb)) = [''a'', ''z'', ''b'', ''c'']
   \<and> map status (downloads (step (RequestDownload movie_c 50) stuck_zb))
       = [Completed, Queued, Queued, Downloading]"
proof -
  have stuck: "map movieId (downloads stuck_zb) = [''a'', ''z'', ''b'']
     \<and> map status (downloads stuck_zb) = [Completed, Queued, Queued]
     \<and> filter (\<lambda>d. status d = Downloading) (downloads stuck_zb) = []
     \<and> find (\<lambda>d. status d = Queued) (downloads stuck_zb) = Some (newItem movie_z 1 1)
     \<and> find (\<lambda>m. id_m m = ''z'') (movies stuck_zb) = None
     \<and> queue_processor (downloads stuck_zb) stuck_zb = stuck_zb
     \<and> map movieId (downloads (step (RequestDownload movie_c 50) stuck_zb)) = [''a'', ''z'', ''b'', ''c'']
     \<and> map status (downloads (step (RequestDownload movie_c 50) stuck_zb))
         = [Completed, Queued, Queued, Downloading]"
    by (simp add: stuck_zb_eq eval_defs movie_z_def item_a_def)
  have reloaded: "map status (downloads (step Restart stuck_zb)) = [Completed, Queued, Queued]"
    by (simp add: stuck_zb_eq step_def handle_def queue_processor_def newItem_def item_a_def
          movie_a_def movie_b_def movie_c_def movie_z_def)
  from stuck reloaded show ?thesis by blast
qed

text \<open>
  C4 (amended). When no item is downloading and the earliest queued entry of the collection (in
  list order, which is the order of the requests, since every admitted request is appended at
  the end) is the only entry of its movie and its movie is in the catalogue, the queue processor
  makes exactly that entry downloading and starts a transfer for it; when the movie of the
  earliest queued entry is not in the catalogue, the queue processor changes nothing. A request
  for a movie that has no entry or a paused one removes the old entry and appends a fresh item
  at the end of the collection, downloading when no item is downloading and queued otherwise;
  the resulting collection is the one a fresh request yields on the collection without the
  paused entry, and when no item is downloading a transfer is started at once. The deletion of
  the partial data that the request for a paused item starts removes the blob and, whether the
  store resolves or rejects it, leaves the collection with the fresh item as it is.
\<close>

theorem fifo_admission:
  "(downloads s = pre @ q # post \<and> status q = Queued \<and> (\<forall>d\<in>set pre. status d \<noteq> Queued)
      \<and> (\<forall>d\<in>set (downloads s). status d \<noteq> Downloading)
      \<and> movieId q \<notin> movieId ` set pre \<and> movieId q \<notin> movieId ` set post
      \<and> find (\<lambda>m. id_m m = movieId q) (movies s) = Some mv
    \<longrightarrow> downloads (queue_processor (downloads s) s) = pre @ q\<lparr>status := Downloading\<rparr> # post
        \<and> tasks (queue_processor (downloads s) s) (next_task s)
            = Some (Transfer \<lparr>movie = mv, aborted = False, awaiting = AwaitFetch, totalLength = 0,
                               chunks = [], receivedLength = 0, lastTime = 0, lastReceived = 0\<rparr>)
        \<and> activeDownloads (queue_processor (downloads s) s) (movieId q) = Some (next_task s))
   \<and> ((\<forall>d\<in>set (downloads s). movieId d = id_m mv' \<longrightarrow> status d = Paused)
    \<longrightarrow> downloads (requestDownload (downloads s) mv' now s)
          = filter (\<lambda>d. movieId d \<noteq> id_m mv') (downloads s) @ [newItem mv' (activeCount (downloads s)) now]
        \<and> status (newItem mv' (activeCount (downloads s)) now)
          = (if activeCount (downloads s) = 0 then Downloading else Queued)
        \<and> downloads (requestDownload (downloads s) mv' now s)
          = downloads (requestDownload (filter (\<lambda>d. movieId d \<noteq> id_m mv') (downloads s)) mv' now
                         (setDownloads (filter (\<lambda>d. movieId d \<noteq> id_m mv')) s))
        \<and> (activeCount (downloads s) = 0 \<longrightarrow>
             activeDownloads (requestDownload (downloads s) mv' now s) (id_m mv')
               = Some (next_task (requestDownload (downloads s) mv' now s) - 1)
             \<and> tasks (requestDownload (downloads s) mv' now s)
                  (next_task (requestDownload (downloads s) mv' now s) - 1)
               = Some (Transfer \<lparr>movie = mv', aborted = False, awaiting = AwaitFetch, totalLength = 0,
                                  chunks = [], receivedLength = 0, lastTime = 0, lastReceived = 0\<rparr>)))
   \<and> (find (\<lambda>d. status d = Queued) (downloads s) = Some q
        \<and> find (\<lambda>m. id_m m = movieId q) (movies s) = None
      \<longrightarrow> queue_processor (downloads s) s = s)
   \<and> (find (\<lambda>d. movieId d = id_m mv') (downloads s) = Some e \<and> status e = Paused
      \<longrightarrow> tasks (requestDownload (downloads s) mv' now s) (next_task s)
            = Some (DeleteVideoPending (id_m mv') False)
          \<and> downloads (handles [Resume (next_task s) Resolved, Resume (next_task s) Resolved]
                         (requestDownload (downloads s) mv' now s))
            = downloads (requestDownload (downloads s) mv' now s)
          \<and> videos (handles [Resume (next_task s) Resolved, Resume (next_task s) Resolved]
                      (requestDownload (downloads s) mv' now s))
            = (videos (requestDownload (downloads s) mv' now s))(id_m mv' := None)
          \<and> downloads (handles [Resume (next_task s) (Rejected err)]
                         (requestDownload (downloads s) mv' now s))
            = downloads (requestDownload (downloads s) mv' now s))"
  (is "?promote \<and> ?append \<and> ?stuck \<and> ?discard")
proof -
  have order: "?promote \<and> ?append" by (rule admission_in_order)
  have stuck: ?stuck by (simp add: queue_processor_def)
  have discard: ?discard
  proof
    assume "find (\<lambda>d. movieId d = id_m mv') (downloads s) = Some e \<and> status e = Paused"
    then have "tasks (requestDownload (downloads s) mv' now s) (next_task s)
        = Some (DeleteVideoPending (id_m mv') False)"
      by (simp add: rerequest_spawns_delete)
    then show "tasks (requestDownload (downloads s) mv' now s) (next_task s)
            = Some (DeleteVideoPending (id_m mv') False)
          \<and> downloads (handles [Resume (next_task s) Resolved, Resume (next_task s) Resolved]
                         (requestDownload (downloads s) mv' now s))
            = downloads (requestDownload (downloads s) mv' now s)
          \<and> videos (handles [Resume (next_task s) Resolved, Resume (next_task s) Resolved]
                      (requestDownload (downloads s) mv' now s))
            = (videos (requestDownload (downloads s) mv' now s))(id_m mv' := None)
          \<and> downloads (handles [Resume (next_task s) (Rejected err)]
                         (requestDownload (downloads s) mv' now s))
            = downloads (requestDownload (downloads s) mv' now s)"
      using delete_without_metadata [of "requestDownload (downloads s) mv' now s" "next_task s" "id_m mv'" err]
      by blast
  qed
  from order stuck discard show ?thesis by blast
qed

theorem fifo_admission_witness:
  "downloads freed_bc = [item_a Completed\<lparr>progress := 100\<rparr>] @ newItem movie_b 1 1 # [newItem movie_c 1 2]
   \<and> status (newItem movie_b 1 1) = Queued
   \<and> find (\<lambda>m. id_m m = movieId (newItem movie_b 1 1)) (movies freed_bc) = Some movie_b
   \<and> map status (downloads freed_bc) = [Completed, Queued, Queued]
   \<and> map status (downloads (queue_processor (downloads freed_bc) freed_bc)) = [Completed, Downloading, Queued]
   \<and> map movieId (downloads (queue_processor (downloads freed_bc) freed_bc)) = [''a'', ''b'', ''c'']
   \<and> activeDownloads (queue_processor (downloads freed_bc) freed_bc) ''b'' = Some 1
   \<and> map status (downloads paused_b) = [Completed, Paused, Downloading]
   \<and> map status (filter (\<lambda>d. movieId d = id_m movie_b) (downloads paused_b)) = [Paused]
   \<and> map movieId (downloads (requestDownload (downloads paused_b) movie_b 3 paused_b)) = [''a'', ''c'', ''b'']
   \<and> map status (downloads (requestDownload (downloads paused_b) movie_b 3 paused_b))
        = [Completed, Downloading, Queued]
   \<and> map status (downloads paused_a) = [Paused]
   \<and> map status (downloads (requestDownload (downloads paused_a) movie_a 30 paused_a)) = [Downloading]
   \<and> activeDownloads (requestDownload (downloads paused_a) movie_a 30 paused_a) ''a'' = Some 2
   \<and> find (\<lambda>d. status d = Queued) (downloads stuck_zb) = Some (newItem movie_z 1 1)
   \<and> find (\<lambda>m. id_m m = movieId (newItem movie_z 1 1)) (movies stuck_zb) = None
   \<and> queue_processor (downloads stuck_zb) stuck_zb = stuck_zb
   \<and> find (\<lambda>d. movieId d = id_m movie_a) (downloads paused_a) = Some (item_a Paused)
   \<and> tasks (requestDownload (downloads paused_a) movie_a 30 paused_a) 1 = Some (DeleteVideoPending ''a'' False)
   \<and> map status (downloads (handles [Resume 1 Resolved, Resume 1 Resolved]
                                  (requestDownload (downloads paused_a) movie_a 30 paused_a))) = [Downloading]
   \<and> map status (downloads (handles [Resume 1 (Rejected (Thrown ''StorageError''))]
                                  (requestDownload (downloads paused_a) movie_a 30 paused_a))) = [Downloading]"
proof -
  have queued:
    "downloads freed_bc = [item_a Completed\<lparr>progress := 100\<rparr>] @ newItem movie_b 1 1 # [newItem movie_c 1 2]
     \<and> status (newItem movie_b 1 1) = Queued
     \<and> find (\<lambda>m. id_m m = movieId (newItem movie_b 1 1)) (movies freed_bc) = Some movie_b
     \<and> map status (downloads freed_bc) = [Completed, Queued, Queued]
     \<and> map status (downloads (queue_processor (downloads freed_bc) freed_bc)) = [Completed, Downloading, Queued]
     \<and> map movieId (downloads (queue_processor (downloads freed_bc) freed_bc)) = [''a'', ''b'', ''c'']
     \<and> activeDownloads (queue_processor (downloads freed_bc) freed_bc) ''b'' = Some 1"
    using fifo_admission [of freed_bc "[item_a Completed\<lparr>progress := 100\<rparr>]" "newItem movie_b 1 1"
                             "[newItem movie_c 1 2]" movie_b]
    by (simp add: freed_bc_downloads newItem_def item_a_def movie_a_def movie_b_def movie_c_def)
  have requeued:
    "map status (downloads paused_b) = [Completed, Paused, Downloading]
     \<and> map status (filter (\<lambda>d. movieId d = id_m movie_b) (downloads paused_b)) = [Paused]
     \<and> map movieId (downloads (requestDownload (downloads paused_b) movie_b 3 paused_b)) = [''a'', ''c'', ''b'']
     \<and> map status (downloads (requestDownload (downloads paused_b) movie_b 3 paused_b))
          = [Completed, Downloading, Queued]"
    using fifo_admission [of paused_b "[]" "item_a Completed" "[]" movie_a movie_b 3]
    by (simp add: paused_b_downloads newItem_def item_a_def movie_a_def movie_b_def movie_c_def
          activeCount_def)
  have idle:
    "map status (downloads paused_a) = [Paused]
     \<and> map status (downloads (requestDownload (downloads paused_a) movie_a 30 paused_a)) = [Downloading]
     \<and> activeDownloads (requestDownload (downloads paused_a) movie_a 30 paused_a) ''a'' = Some 2"
    using fifo_admission [of paused_a "[]" "item_a Paused" "[]" movie_a movie_a 30]
    by (simp add: paused_a_eq eval_defs activeCount_def)
  have unknown:
    "find (\<lambda>d. status d = Queued) (downloads stuck_zb) = Some (newItem movie_z 1 1)
     \<and> find (\<lambda>m. id_m m = movieId (newItem movie_z 1 1)) (movies stuck_zb) = None
     \<and> queue_processor (downloads stuck_zb) stuck_zb = stuck_zb"
    using fifo_admission [of stuck_zb "[item_a Completed\<lparr>progress := 100\<rparr>]" "newItem movie_z 1 1"
                             "[newItem movie_b 1 2]" movie_z]
    by (simp add: stuck_zb_eq newItem_def item_a_def movie_a_def movie_b_def movie_c_def movie_z_def)
  have discarded:
    "find (\<lambda>d. movieId d = id_m movie_a) (downloads paused_a) = Some (item_a Paused)
     \<and> tasks (requestDownload (downloads paused_a) movie_a 30 paused_a) 1 = Some (DeleteVideoPending ''a'' False)
     \<and> map status (downloads (handles [Resume 1 Resolved, Resume 1 Resolved]
                                    (requestDownload (downloads paused_a) movie_a 30 paused_a))) = [Downloading]
     \<and> map status (downloads (handles [Resume 1 (Rejected (Thrown ''StorageError''))]
                                    (requestDownload (downloads paused_a) movie_a 30 paused_a))) = [Downloading]"
    using fifo_admission [of paused_a "[]" "item_a Paused" "[]" movie_a movie_a 30 "item_a Paused"
                             "Thrown ''StorageError''"]
    by (simp add: paused_a_eq eval_defs task_defs activeCount_def item_a_def)
  from queued requeued idle unknown discarded show ?thesis by blast
qed

subsection \<open>A request for a movie that is already tracked\<close>

text \<open>
  C5 as stated fails: a request for a movie whose entry is failed changes nothing, while the
  same request on the empty collection starts a download.
\<close>

theorem failed_rerequest_is_ignored:
  "map status (downloads failed_a) = [Failed]
   \<and> map status (downloads (step (RequestDownload movie_a 30) failed_a)) = [Failed]
   \<and> step (RequestDownload movie_a 30) failed_a = failed_a
   \<and> map status (downloads (step (RequestDownload movie_a 30) (initial [movie_a, movie_b, movie_c])))
        = [Downloading]"
  by (simp add: failed_a_eq eval_defs)

text \<open>
  C5 (amended). A request for a movie whose existing entry has any status other than paused
  (failed, downloading, queued or completed) leaves the state as it is. A request for a movie
  whose existing entry is paused starts the deletion of its partial data and replaces the entry
  by a fresh item at the end of the collection, downloading when no item is downloading and
  queued otherwise.
\<close>

theorem requestDownload_existing_entry:
  "(find (\<lambda>d. movieId d = id_m mv) snapshot = Some e \<and> status e \<noteq> Paused
      \<longrightarrow> requestDownload snapshot mv now s = s)
   \<and> (find (\<lambda>d. movieId d = id_m mv) (downloads s) = Some e \<and> status e = Paused
      \<longrightarrow> downloads (requestDownload (downloads s) mv now s)
            = filter (\<lambda>d. movieId d \<noteq> id_m mv) (downloads s) @ [newItem mv (activeCount (downloads s)) now]
          \<and> tasks (requestDownload (downloads s) mv now s) (next_task s)
            = Some (DeleteVideoPending (id_m mv) False))"
proof (intro conjI impI)
  assume "find (\<lambda>d. movieId d = id_m mv) snapshot = Some e \<and> status e \<noteq> Paused"
  then show "requestDownload snapshot mv now s = s" by (simp add: requestDownload_def)
next
  assume h: "find (\<lambda>d. movieId d = id_m mv) (downloads s) = Some e \<and> status e = Paused"
  then have r: "requestDownload (downloads s) mv now s
      = requestDownload_admit (downloads s) mv now (deleteDownload (id_m mv) False s)"
    by (simp add: requestDownload_def)
  show "downloads (requestDownload (downloads s) mv now s)
            = filter (\<lambda>d. movieId d \<noteq> id_m mv) (downloads s) @ [newItem mv (activeCount (downloads s)) now]"
    unfolding r by (rule admit_downloads) simp
  have "tasks (requestDownload_admit (downloads s) mv now (deleteDownload (id_m mv) False s)) (next_task s)
      = tasks (deleteDownload (id_m mv) False s) (next_task s)"
    by (rule admit_keeps_task) (simp add: deleteDownload_def spawn_def)
  then show "tasks (requestDownload (downloads s) mv now s) (next_task s)
            = Some (DeleteVideoPending (id_m mv) False)"
    unfolding r by (simp add: deleteDownload_def spawn_def)
qed

theorem requestDownload_existing_entry_witness:
  "find (\<lambda>d. movieId d = id_m movie_a) (downloads failed_a) = Some (item_a Failed)
   \<and> status (item_a Failed) \<noteq> Paused
   \<and> requestDownload (downloads failed_a) movie_a 30 failed_a = failed_a
   \<and> find (\<lambda>d. movieId d = id_m movie_a) (downloads paused_a) = Some (item_a Paused)
   \<and> status (item_a Paused) = Paused
   \<and> map status (downloads (requestDownload (downloads paused_a) movie_a 30 paused_a)) = [Downloading]
   \<and> tasks (requestDownload (downloads paused_a) movie_a 30 paused_a) (next_task paused_a)
        = Some (DeleteVideoPending ''a'' False)"
proof -
  have ignored:
    "find (\<lambda>d. movieId d = id_m movie_a) (downloads failed_a) = Some (item_a Failed)
     \<and> status (item_a Failed) \<noteq> Paused
     \<and> requestDownload (downloads failed_a) movie_a 30 failed_a = failed_a"
    using requestDownload_existing_entry [of movie_a "downloads failed_a" "item_a Failed" 30 failed_a]
    by (simp add: failed_a_eq item_a_def movie_a_def)
  have reset:
    "find (\<lambda>d. movieId d = id_m movie_a) (downloads paused_a) = Some (item_a Paused)
     \<and> status (item_a Paused) = Paused
     \<and> map status (downloads (requestDownload (downloads paused_a) movie_a 30 paused_a)) = [Downloading]
     \<and> tasks (requestDownload (downloads paused_a) movie_a 30 paused_a) (next_task paused_a)
          = Some (DeleteVideoPending ''a'' False)"
    using requestDownload_existing_entry [of movie_a "downloads paused_a" "item_a Paused" 30 paused_a]
    by (simp add: paused_a_eq item_a_def movie_a_def newItem_def activeCount_def)
  from ignored reset show ?thesis by blast
qed

subsection \<open>pauseDownload\<close>




subsection \<open>Reload\<close>

text \<open>
  C7 as stated fails: the value written to localStorage for a downloading item has the key
  \<^verbatim>\<open>speed\<close>, and after a reload the item is still downloading with the same speed, although
  no task is left.
\<close>

theorem speed_and_downloading_survive_reload:
  "map status (downloads sampled_a) = [Downloading]
   \<and> persist (downloads sampled_a)
       = JArray [JObject [(''movieId'', JString ''a''), (''progress'', JNumber 50),
                          (''status'', JString ''downloading''), (''expiry'', JNumber 172800000),
                          (''totalSizeMB'', JNumber (1 / 131072)),
                          (''downloadedSizeMB'', JNumber (1 / 262144)),
                          (''speed'', JNumber (1 / 262144))]]
   \<and> map status (downloads (step Restart sampled_a)) = [Downloading]
   \<and> map speed (downloads (step Restart sampled_a)) = [Some (1 / 262144)]
   \<and> tasks (step Restart sampled_a) 0 = None"
proof -
  have written: "persist (downloads sampled_a)
       = JArray [JObject [(''movieId'', JString ''a''), (''progress'', JNumber 50),
                          (''status'', JString ''downloading''), (''expiry'', JNumber 172800000),
                          (''totalSizeMB'', JNumber (1 / 131072)),
                          (''downloadedSizeMB'', JNumber (1 / 262144)),
                          (''speed'', JNumber (1 / 262144))]]"
    by (simp add: sampled_a_eq persist_def stringify_item_def)
  have reloaded: "map status (downloads sampled_a) = [Downloading]
     \<and> map status (downloads (step Restart sampled_a)) = [Downloading]
     \<and> map speed (downloads (step Restart sampled_a)) = [Some (1 / 262144)]
     \<and> tasks (step Restart sampled_a) 0 = None"
    by (simp add: sampled_a_eq step_def handle_def queue_processor_def)
  from written reloaded show ?thesis by blast
qed

text \<open>
  C7 (amended). What the persistence effect writes is read back unchanged by the initializer,
  every field of every item included (the speed and a status downloading too); a reload keeps
  the collection and the blob store and drops every task and transfer handle.
\<close>

theorem reload_restores_collection:
  "load (Some (persist ds)) = ds
   \<and> downloads (handle Restart s) = downloads s
   \<and> videos (handle Restart s) = videos s
   \<and> tasks (handle Restart s) = Map.empty
   \<and> activeDownloads (handle Restart s) = Map.empty"
  by (simp add: handle_def)

subsection \<open>Units of the size fields\<close>

text \<open>
  C8 as stated fails: with 4 of 8 bytes received (the counts of the transfer), the size fields
  of the item are 4 / 1048576 and 8 / 1048576, not 4 and 8.
\<close>

theorem size_fields_hold_megabytes:
  "tasks sampled_a 0 = Some (Transfer \<lparr>movie = movie_a, aborted = False, awaiting = AwaitRead,
                                        totalLength = 8, chunks = [[1, 2, 3, 4]], receivedLength = 4,
                                        lastTime = 1010, lastReceived = 4\<rparr>)
   \<and> map downloadedSizeMB (downloads sampled_a) = [1 / 262144]
   \<and> map totalSizeMB (downloads sampled_a) = [1 / 131072]
   \<and> downloadedSizeMB (hd (downloads sampled_a)) \<noteq> 4
   \<and> totalSizeMB (hd (downloads sampled_a)) \<noteq> 8"
  by (simp add: sampled_a_eq)

text \<open>
  C8 (amended). A sample published by a transfer rewrites only the item of its movie. The
  counts of the transfer are bytes; the size fields of the item hold them divided by
  1024 * 1024 (megabytes), the conversion being made by \<^verbatim>\<open>executeDownload\<close> itself: the
  downloaded size times 1024 * 1024 is the number of received bytes, and when the total length
  is known the total size times 1024 * 1024 is that length and the progress is 100 times the
  received bytes over the total length; when it is not known the total size is the downloaded
  size and the progress is 0. The speed is in megabytes per second: times 1024 * 1024 and the
  milliseconds since the last sample it gives 1000 times the bytes received since then. The
  view prints the downloaded size as it is and divides the total size once more by 1024.
\<close>

theorem published_sample_units:
  assumes "tasks s c = Some (Transfer x)" and "awaiting x = AwaitRead" and "\<not> aborted x"
    and "now - lastTime x > 800"
    and "downloads s = pre @ d # post" and "movieId d = id_m (movie x)"
    and "id_m (movie x) \<notin> movieId ` set pre" and "id_m (movie x) \<notin> movieId ` set post"
  shows "\<exists>d' v. downloads (handle (Resume c (Chunk bytes now)) s) = pre @ d' # post
          \<and> movieId d' = movieId d \<and> status d' = status d \<and> expiry d' = expiry d
          \<and> downloadedSizeMB d' * (1024 * 1024) = of_nat (receivedLength x + length bytes)
          \<and> (0 < totalLength x \<longrightarrow>
                totalSizeMB d' * (1024 * 1024) = of_int (totalLength x)
                \<and> progress d' * of_int (totalLength x) = 100 * of_nat (receivedLength x + length bytes)
                \<and> shown_total_gb d' * (1024 * 1024 * 1024) = of_int (totalLength x))
          \<and> (totalLength x \<le> 0 \<longrightarrow> totalSizeMB d' = downloadedSizeMB d' \<and> progress d' = 0)
          \<and> speed d' = Some v
          \<and> v * (1024 * 1024) * of_int (now - lastTime x)
               = 1000 * (of_nat (receivedLength x + length bytes) - of_nat (lastReceived x))
          \<and> shown_downloaded_mb d' * (1024 * 1024) = of_nat (receivedLength x + length bytes)"
proof -
  let ?i = "id_m (movie x)"
  let ?r = "receivedLength x + length bytes"
  let ?d = "publish ?i (totalLength x) ?r (lastReceived x) (lastTime x) now d"
  have pub: "\<And>e. movieId e \<noteq> ?i \<Longrightarrow> publish ?i (totalLength x) ?r (lastReceived x) (lastTime x) now e = e"
    by (simp add: publish_def Let_def)
  have "handle (Resume c (Chunk bytes now)) s
      = suspend c (Transfer (x\<lparr>chunks := chunks x @ [bytes], receivedLength := ?r,
                                lastTime := now, lastReceived := ?r\<rparr>))
          (setDownloads (map (publish ?i (totalLength x) ?r (lastReceived x) (lastTime x) now)) s)"
    using assms(1-4) by (simp add: handle_def executeDownload_resume_def Let_def)
  then have ds: "downloads (handle (Resume c (Chunk bytes now)) s) = pre @ ?d # post"
    using assms(5,7,8) pub by (simp add: map_untouched [where i = ?i])
  have t: "of_int (now - lastTime x) \<noteq> (0::rat)" using assms(4) by simp
  have fields: "movieId ?d = movieId d" "status ?d = status d" "expiry ?d = expiry d"
    "downloadedSizeMB ?d * (1024 * 1024) = of_nat ?r"
    "shown_downloaded_mb ?d * (1024 * 1024) = of_nat ?r"
    using assms(6) by (simp_all add: publish_def Let_def shown_downloaded_mb_def)
  have known: "0 < totalLength x \<Longrightarrow>
      totalSizeMB ?d * (1024 * 1024) = of_int (totalLength x)
      \<and> progress ?d * of_int (totalLength x) = 100 * of_nat ?r
      \<and> shown_total_gb ?d * (1024 * 1024 * 1024) = of_int (totalLength x)"
    using assms(6) by (simp add: publish_def Let_def shown_total_gb_def)
  have unknown: "totalLength x \<le> 0 \<Longrightarrow> totalSizeMB ?d = downloadedSizeMB ?d \<and> progress ?d = 0"
    using assms(6) by (simp add: publish_def Let_def)
  let ?v = "((of_nat ?r - of_nat (lastReceived x)) / (1024 * 1024)) / (of_int (now - lastTime x) / 1000) :: rat"
  have sp: "speed ?d = Some ?v" using assms(6) by (simp add: publish_def Let_def)
  have rate: "?v * (1024 * 1024) * of_int (now - lastTime x) = 1000 * (of_nat ?r - of_nat (lastReceived x))"
    using t by (simp add: field_simps)
  show ?thesis
    using ds fields known unknown sp rate by blast
qed

theorem published_sample_units_witness:
  "tasks opened_a 0 = Some (Transfer \<lparr>movie = movie_a, aborted = False, awaiting = AwaitRead,
                                       totalLength = 8, chunks = [], receivedLength = 0, lastTime = 10,
                                       lastReceived = 0\<rparr>)
   \<and> (1010 :: int) - 10 > 800
   \<and> map movieId (downloads opened_a) = [''a'']
   \<and> downloads (handle (Resume 0 (Chunk [1, 2, 3, 4] 1010)) opened_a)
       = [\<lparr>movieId = ''a'', progress = 50, status = Downloading, expiry = 172800000,
           totalSizeMB = 1 / 131072, downloadedSizeMB = 1 / 262144, speed = Some (1 / 262144)\<rparr>]
   \<and> (1 / 262144 :: rat) * (1024 * 1024) = 4
   \<and> (1 / 131072 :: rat) * (1024 * 1024) = 8"
  using published_sample_units
          [of opened_a 0 "\<lparr>movie = movie_a, aborted = False, awaiting = AwaitRead, totalLength = 8,
                            chunks = [], receivedLength = 0, lastTime = 10, lastReceived = 0\<rparr>"
              1010 "[]" "\<lparr>movieId = ''a'', progress = 0, status = Downloading, expiry = 172800000,
                            totalSizeMB = 1 / 131072, downloadedSizeMB = 0, speed = Some 0\<rparr>" "[]"
              "[1, 2, 3, 4]"]
  by (simp add: opened_a_eq movie_a_def handle_def executeDownload_resume_def suspend_def setDownloads_def
        publish_def Let_def)

subsection \<open>clearCompleted\<close>

text \<open>
  C9. With two completed items, \<^verbatim>\<open>clearCompleted\<close> first awaits the deletion of the blob of the
  first one. When the store rejects that deletion the call ends there: both entries are still in
  the collection, still completed, the blob of the second item is still stored and no task is
  left that would go on. (When the store resolves every deletion, both blobs and both entries
  are removed; and \<^verbatim>\<open>deleteDownload\<close>, whose \<^verbatim>\<open>try\<close> block catches the same rejection, removes the
  entry all the same.)
\<close>

theorem clearCompleted_stops_at_storage_failure:
  "map status (downloads completed_ab) = [Completed, Completed]
   \<and> tasks (run [ClearCompleted] completed_ab) 2
       = Some (ClearVideoPending (downloads completed_ab))
   \<and> map movieId (downloads (run [ClearCompleted, Resume 2 (Rejected (Thrown ''StorageError''))] completed_ab))
       = [''a'', ''b'']
   \<and> map status (downloads (run [ClearCompleted, Resume 2 (Rejected (Thrown ''StorageError''))] completed_ab))
       = [Completed, Completed]
   \<and> videos (run [ClearCompleted, Resume 2 (Rejected (Thrown ''StorageError''))] completed_ab) ''b''
       = Some [9, 9]
   \<and> tasks (run [ClearCompleted, Resume 2 (Rejected (Thrown ''StorageError''))] completed_ab) 2 = None
   \<and> downloads (run [ClearCompleted, Resume 2 Resolved, Resume 2 Resolved, Resume 2 Resolved] completed_ab) = []
   \<and> videos (run [ClearCompleted, Resume 2 Resolved, Resume 2 Resolved, Resume 2 Resolved] completed_ab) ''a''
       = None
   \<and> videos (run [ClearCompleted, Resume 2 Resolved, Resume 2 Resolved, Resume 2 Resolved] completed_ab) ''b''
       = None
   \<and> map movieId (downloads (run [DeleteDownload ''a'', Resume 2 (Rejected (Thrown ''StorageError''))] completed_ab))
       = [''b'']"
  by (simp add: completed_ab_eq eval_defs task_defs item_a_def eval_nat_numeral)

subsection \<open>Removal while a transfer is in flight\<close>

lemma absent_handle:
  assumes "i \<notin> movieId ` set (downloads s)" and "\<not> requests i e"
  shows "i \<notin> movieId ` set (downloads (handle e s))"
proof (cases e)
  case (RequestDownload mv now)
  with assms(2) have other: "id_m mv \<noteq> i" by simp
  have adm: "\<And>s'. downloads s' = downloads s \<Longrightarrow>
      i \<notin> movieId ` set (downloads (requestDownload_admit (downloads s) mv now s'))"
    using assms(1) other by (auto simp: admit_downloads newItem_def)
  show ?thesis
    using assms(1) adm [of s] adm [of "deleteDownload (id_m mv) False s"] RequestDownload
    by (simp add: handle_def requestDownload_def split: option.splits)
next
  case (PauseDownload j)
  then show ?thesis using absent_quiet [OF quiet_pauseDownload assms(1)] by (simp add: handle_def)
next
  case (DeleteDownload j)
  then show ?thesis using assms(1) by (simp add: handle_def)
next
  case ClearCompleted
  then show ?thesis using assms(1) by (simp add: handle_def clearCompleted_def Let_def)
next
  case (Resume t out)
  then show ?thesis using assms(1) absent_quiet [OF quiet_resume assms(1)]
    by (simp add: handle_def split: option.splits)
next
  case Restart
  then show ?thesis using assms(1) by (simp add: handle_def)
qed

lemma ids_queue_processor:
  "map movieId (downloads (queue_processor snapshot s)) = map movieId (downloads s)"
proof -
  have "\<And>mv. map movieId (downloads (executeDownload mv s)) = map movieId (downloads s)"
    by (simp add: comp_def if_distrib cong: if_cong)
  then show ?thesis by (simp add: queue_processor_def split: option.splits)
qed

lemma absent_step:
  assumes "i \<notin> movieId ` set (downloads s)" and "\<not> requests i e"
  shows "i \<notin> movieId ` set (downloads (step e s))"
proof -
  have "set (map movieId (downloads (step e s))) = set (map movieId (downloads (handle e s)))"
    by (simp only: step_def Let_def ids_queue_processor)
  then show ?thesis using absent_handle [OF assms] by simp
qed

lemma absent_run:
  "i \<notin> movieId ` set (downloads s) \<Longrightarrow> list_all (\<lambda>e. \<not> requests i e) es
     \<Longrightarrow> i \<notin> movieId ` set (downloads (run es s))"
  by (induction es arbitrary: s) (simp_all add: absent_step)

text \<open>
  C10. The cancellation branch of \<^verbatim>\<open>executeDownload\<close> keeps the identifiers of the collection
  as they are and rewrites only entries of its movie that are still downloading; on a
  collection without an entry for its movie it changes nothing. The last step of
  \<^verbatim>\<open>deleteDownload\<close> leaves no entry for the removed movie, and from a state without an entry
  for a movie no sequence of events without a new request for that movie (resumptions of any
  transfer and of any other task in any order, pauses, removals, clear-completed, reloads)
  brings one back. (While the removal still waits for the blob store the entry is still
  downloading, and a cancellation delivered then pauses it before the removal deletes it.)
\<close>

theorem removed_item_never_reappears:
  "map movieId (downloads (executeDownload_throw c mv (Thrown ''AbortError'') s)) = map movieId (downloads s)
   \<and> (\<forall>n < length (downloads s).
         \<not> (movieId (downloads s ! n) = id_m mv \<and> status (downloads s ! n) = Downloading)
         \<longrightarrow> downloads (executeDownload_throw c mv (Thrown ''AbortError'') s) ! n = downloads s ! n)
   \<and> (id_m mv \<notin> movieId ` set (downloads s)
        \<longrightarrow> downloads (executeDownload_throw c mv (Thrown ''AbortError'') s) = downloads s)
   \<and> i \<notin> movieId ` set (downloads (deleteDownload_after t i True s))
   \<and> (i \<notin> movieId ` set (downloads s) \<and> list_all (\<lambda>e. \<not> requests i e) es
        \<longrightarrow> i \<notin> movieId ` set (downloads (run es s)))"
proof (intro conjI impI allI)
  let ?f = "\<lambda>d. if movieId d = id_m mv \<and> status d = Downloading
                 then d\<lparr>status := Paused, speed := Some 0\<rparr> else d"
  have ds: "downloads (executeDownload_throw c mv (Thrown ''AbortError'') s) = map ?f (downloads s)"
    by (simp add: executeDownload_throw_def executeDownload_finally_def executeDownload_catch_def)
  show "map movieId (downloads (executeDownload_throw c mv (Thrown ''AbortError'') s)) = map movieId (downloads s)"
    unfolding ds by (induction "downloads s") simp_all
  {
    fix n
    assume "n < length (downloads s)"
      and "\<not> (movieId (downloads s ! n) = id_m mv \<and> status (downloads s ! n) = Downloading)"
    then show "downloads (executeDownload_throw c mv (Thrown ''AbortError'') s) ! n = downloads s ! n"
      unfolding ds by auto
  }
  {
    assume "id_m mv \<notin> movieId ` set (downloads s)"
    then show "downloads (executeDownload_throw c mv (Thrown ''AbortError'') s) = downloads s"
      unfolding ds by (simp add: map_untouched [where i = "id_m mv"])
  }
  show "i \<notin> movieId ` set (downloads (deleteDownload_after t i True s))"
    by (auto simp: deleteDownload_after_def)
  {
    assume "i \<notin> movieId ` set (downloads s) \<and> list_all (\<lambda>e. \<not> requests i e) es"
    then show "i \<notin> movieId ` set (downloads (run es s))" by (simp add: absent_run)
  }
qed

theorem removed_item_never_reappears_witness:
  "map movieId (downloads downloading_a) = [''a'']
   \<and> tasks (run [DeleteDownload ''a''] downloading_a) 0 = Some (Transfer (transfer_a\<lparr>aborted := True\<rparr>))
   \<and> downloads (run [DeleteDownload ''a'', Resume 1 Resolved, Resume 1 Resolved] downloading_a) = []
   \<and> tasks (run [DeleteDownload ''a'', Resume 1 Resolved, Resume 1 Resolved] downloading_a) 0
       = Some (Transfer (transfer_a\<lparr>aborted := True\<rparr>))
   \<and> downloads (run [Resume 0 (Rejected (Thrown ''AbortError''))]
                  (run [DeleteDownload ''a'', Resume 1 Resolved, Resume 1 Resolved] downloading_a)) = []
   \<and> map status (downloads (run [DeleteDownload ''a'', Resume 0 (Rejected (Thrown ''AbortError''))] downloading_a))
       = [Paused]
   \<and> downloads (run [DeleteDownload ''a'', Resume 0 (Rejected (Thrown ''AbortError'')),
                     Resume 1 Resolved, Resume 1 Resolved] downloading_a) = []"
proof -
  define removed where "removed = run [DeleteDownload ''a'', Resume 1 Resolved, Resume 1 Resolved] downloading_a"
  have gone: "downloads removed = []"
    and live: "tasks removed 0 = Some (Transfer (transfer_a\<lparr>aborted := True\<rparr>))"
    by (simp_all add: removed_def downloading_a_eq eval_defs task_defs transfer_a_def eval_nat_numeral)
  have "''a'' \<notin> movieId ` set (downloads (run [Resume 0 (Rejected (Thrown ''AbortError''))] removed))"
    using removed_item_never_reappears
            [of 0 movie_a removed "''a''" 1 "[Resume 0 (Rejected (Thrown ''AbortError''))]"]
    by (simp add: gone)
  moreover have "map movieId (downloads (run [Resume 0 (Rejected (Thrown ''AbortError''))] removed))
      = map movieId (downloads removed)"
    by (simp add: step_def handle_def live executeDownload_resume_def transfer_a_def ids_queue_processor
          executeDownload_throw_def executeDownload_finally_def executeDownload_catch_def comp_def
          if_distrib gone)
  ultimately have late: "downloads (run [Resume 0 (Rejected (Thrown ''AbortError''))] removed) = []"
    using gone by simp
  have rest: "map movieId (downloads downloading_a) = [''a'']
     \<and> tasks (run [DeleteDownload ''a''] downloading_a) 0 = Some (Transfer (transfer_a\<lparr>aborted := True\<rparr>))
     \<and> map status (downloads (run [DeleteDownload ''a'', Resume 0 (Rejected (Thrown ''AbortError''))] downloading_a))
         = [Paused]
     \<and> downloads (run [DeleteDownload ''a'', Resume 0 (Rejected (Thrown ''AbortError'')),
                     Resume 1 Resolved, Resume 1 Resolved] downloading_a) = []"
    by (simp add: downloading_a_eq eval_defs task_defs transfer_a_def item_a_def eval_nat_numeral)
  from gone live late rest show ?thesis unfolding removed_def by blast
qed

end
